theory Spec2Isabelle
  imports Complex_Main "HOL-Library.Log_Nat"
begin

section \<open>Numbers\<close>

text \<open>
  A JavaScript number is an IEEE double. The finite doubles are real numbers, and the values
  of a number expression are those, the two infinities and \<open>NaN\<close>; a property that an
  object does not have reads as \<open>undefined\<close>, which arithmetic takes for \<open>NaN\<close>. The
  model has one zero: no handler divides by a computed value, which is where the sign of
  zero would show.
\<close>

datatype jsnum = Num real | PosInf | NegInf | NaN | Undefined

text \<open>
  \<open>to_double x\<close> is the double nearest to \<open>x\<close>, a tie going to the even significand:
  \<open>expo x\<close> is the binary exponent of \<open>x\<close>, \<open>ulp x\<close> the spacing of the doubles around
  \<open>x\<close> (53 significant bits, and \<open>2^-1074\<close> below the normal range), and a result of
  magnitude \<open>2^1024\<close> is an infinity.
\<close>

definition pow2 :: "int \<Rightarrow> real" where
  "pow2 k = (if 0 \<le> k then 2 ^ nat k else 1 / 2 ^ nat (- k))"

definition expo :: "real \<Rightarrow> int" where
  "expo x =
     (if 1 \<le> \<bar>x\<bar> then bitlen \<lfloor>\<bar>x\<bar>\<rfloor> - 1 else - bitlen (\<lceil>1 / \<bar>x\<bar>\<rceil> - 1))"

definition round_half_even :: "real \<Rightarrow> int" where
  "round_half_even y =
     (let f = \<lfloor>y\<rfloor>
      in if y - of_int f < 1 / 2 then f
         else if 1 / 2 < y - of_int f then f + 1
         else if even f then f else f + 1)"

definition ulp :: "real \<Rightarrow> real" where
  "ulp x = pow2 (max (expo x) (- 1022) - 52)"

definition to_double :: "real \<Rightarrow> jsnum" where
  "to_double x =
     (if x = 0 then Num 0
      else let r = of_int (round_half_even (x / ulp x)) * ulp x
           in if 2 ^ 1024 \<le> r then PosInf
              else if r \<le> - (2 ^ 1024) then NegInf
              else Num r)"

text \<open>The operators \<open>*\<close> and \<open>+\<close> on numbers: the exact result, rounded once.\<close>

fun jmul :: "jsnum \<Rightarrow> jsnum \<Rightarrow> jsnum" where
  "jmul (Num x) (Num y) = to_double (x * y)"
| "jmul (Num x) PosInf = (if x = 0 then NaN else if 0 < x then PosInf else NegInf)"
| "jmul (Num x) NegInf = (if x = 0 then NaN else if 0 < x then NegInf else PosInf)"
| "jmul PosInf (Num y) = (if y = 0 then NaN else if 0 < y then PosInf else NegInf)"
| "jmul NegInf (Num y) = (if y = 0 then NaN else if 0 < y then NegInf else PosInf)"
| "jmul PosInf PosInf = PosInf"
| "jmul PosInf NegInf = NegInf"
| "jmul NegInf PosInf = NegInf"
| "jmul NegInf NegInf = PosInf"
| "jmul _ _ = NaN"

fun jadd :: "jsnum \<Rightarrow> jsnum \<Rightarrow> jsnum" where
  "jadd (Num x) (Num y) = to_double (x + y)"
| "jadd (Num x) PosInf = PosInf"
| "jadd (Num x) NegInf = NegInf"
| "jadd PosInf (Num y) = PosInf"
| "jadd NegInf (Num y) = NegInf"
| "jadd PosInf PosInf = PosInf"
| "jadd NegInf NegInf = NegInf"
| "jadd _ _ = NaN"

text \<open>
  \<open>Math.round\<close> rounds to the nearest integer, a tie going up; on a double the result is
  a double again. \<open>Math.min\<close> and \<open>Math.max\<close> are \<open>min\<close> and \<open>max\<close>.
\<close>

definition Math_round :: "real \<Rightarrow> real" where
  "Math_round x = of_int \<lfloor>x + 1 / 2\<rfloor>"

fun jround :: "jsnum \<Rightarrow> jsnum" where
  "jround (Num x) = Num (Math_round x)"
| "jround PosInf = PosInf"
| "jround NegInf = NegInf"
| "jround _ = NaN"

text \<open>\<open>x / 100\<close>\<close>

fun jdiv100 :: "jsnum \<Rightarrow> jsnum" where
  "jdiv100 (Num x) = to_double (x / 100)"
| "jdiv100 PosInf = PosInf"
| "jdiv100 NegInf = NegInf"
| "jdiv100 _ = NaN"

text \<open>A number that is not negative: a finite one from 0 on, or the positive infinity.\<close>

definition not_negative :: "jsnum \<Rightarrow> bool" where
  "not_negative v = (case v of Num r \<Rightarrow> 0 \<le> r | PosInf \<Rightarrow> True | _ \<Rightarrow> False)"

text \<open>A finite number of magnitude at most \<open>2^k\<close>.\<close>

definition below :: "jsnum \<Rightarrow> nat \<Rightarrow> bool" where
  "below v k = (case v of Num r \<Rightarrow> \<bar>r\<bar> \<le> 2 ^ k | _ \<Rightarrow> False)"

text \<open>
  The handlers other than the fare engine compare and add amounts and take a tenth or a
  mean of them; there the amounts are real numbers and the arithmetic is exact.
\<close>

section \<open>Fare engine: \<open>calculateFare\<close> (utils/googleMaps.js)\<close>

record rates =
  base :: jsnum
  perKm :: jsnum
  perMin :: jsnum

text \<open>The object literal \<open>baseFares\<close>, by its own keys.\<close>

definition baseFares :: "string \<rightharpoonup> rates" where
  "baseFares =
     [''Bike'' \<mapsto> \<lparr>base = Num 20, perKm = Num 8, perMin = Num 1\<rparr>,
      ''Auto'' \<mapsto> \<lparr>base = Num 30, perKm = Num 12, perMin = Num (3 / 2)\<rparr>,
      ''Car'' \<mapsto> \<lparr>base = Num 50, perKm = Num 15, perMin = Num 2\<rparr>,
      ''Truck'' \<mapsto> \<lparr>base = Num 100, perKm = Num 25, perMin = Num 3\<rparr>]"

text \<open>
  An object literal inherits from \<open>Object.prototype\<close>: indexed by one of these names it
  answers a function or an object, which is truthy and has no \<open>base\<close>, \<open>perKm\<close> or
  \<open>perMin\<close>.
\<close>

definition Object_prototype :: "string list" where
  "Object_prototype =
     [''constructor'', ''__defineGetter__'', ''__defineSetter__'', ''hasOwnProperty'',
      ''__lookupGetter__'', ''__lookupSetter__'', ''isPrototypeOf'', ''propertyIsEnumerable'',
      ''toString'', ''valueOf'', ''__proto__'', ''toLocaleString'']"

record 'a fare_parts =
  baseFare :: 'a
  distanceFare :: 'a
  timeFare :: 'a
  totalFare :: 'a

record fare = "jsnum fare_parts" +
  surgeMultiplier :: jsnum

text \<open>\<open>const rates = baseFares[vehicleType] || baseFares['Car']\<close>\<close>

definition rates_for :: "string \<Rightarrow> rates" where
  "rates_for vehicleType =
     (case baseFares vehicleType of
        Some r \<Rightarrow> r
      | None \<Rightarrow>
          if vehicleType \<in> set Object_prototype
          then \<lparr>base = Undefined, perKm = Undefined, perMin = Undefined\<rparr>
          else the (baseFares ''Car''))"

text \<open>
  The number arguments are given as reals and read as the doubles nearest to them, as a
  number literal is.
\<close>

definition calculateFare :: "real \<Rightarrow> real \<Rightarrow> string \<Rightarrow> real \<Rightarrow> fare" where
  "calculateFare distance duration vehicleType surge =
     (let rates = rates_for vehicleType;
          base_fare = base rates;
          distance_fare = jmul (to_double distance) (perKm rates);
          time_fare = jmul (to_double duration) (perMin rates);
          total_fare = jmul (jadd (jadd base_fare distance_fare) time_fare) (to_double surge)
      in \<lparr>baseFare = base_fare,
          distanceFare = jdiv100 (jround (jmul distance_fare (Num 100))),
          timeFare = jdiv100 (jround (jmul time_fare (Num 100))),
          totalFare = jdiv100 (jround (jmul total_fare (Num 100))),
          surgeMultiplier = to_double surge\<rparr>)"

subsection \<open>The fare function as the specification words it\<close>

text \<open>
  The reference definition: a rate table keyed by vehicle class with a default class, the
  total \<open>(base + distance * perKmRate + duration * perMinRate) * surge\<close>, and every
  component rounded to two decimal places, a tie going up.
\<close>

definition round_2dp :: "real \<Rightarrow> real" where
  "round_2dp x = of_int \<lfloor>x * 100 + 1 / 2\<rfloor> / 100"

definition default_class :: string where
  "default_class = ''Car''"

definition rate_table :: "string \<Rightarrow> (real \<times> real \<times> real) option" where
  "rate_table c =
     (if c = ''Bike'' then Some (20, 8, 1)
      else if c = ''Auto'' then Some (30, 12, 3 / 2)
      else if c = ''Car'' then Some (50, 15, 2)
      else if c = ''Truck'' then Some (100, 25, 3)
      else None)"

definition fare_reference :: "real \<Rightarrow> real \<Rightarrow> string \<Rightarrow> real \<Rightarrow> real fare_parts" where
  "fare_reference distance_km duration_min vehicleClass surge =
     (case (case rate_table vehicleClass of Some r \<Rightarrow> r | None \<Rightarrow> the (rate_table default_class))
      of (b, perKmRate, perMinRate) \<Rightarrow>
        \<lparr>baseFare = round_2dp b,
         distanceFare = round_2dp (distance_km * perKmRate),
         timeFare = round_2dp (duration_min * perMinRate),
         totalFare = round_2dp ((b + distance_km * perKmRate + duration_min * perMinRate) * surge)\<rparr>)"

section \<open>Documents and the store\<close>

text \<open>
  The documents carry the fields that a guard or a computation of the handlers reads or
  writes. Addresses, landmarks, passenger counts and the like are stored and returned
  untouched and are left out. Status values are the strings of the source. Notification
  documents, e-mails and socket emits are writes to collaborators that no handler reads
  back; they are left out as well. The authentication and validation middleware runs before
  a handler: a handler's arguments are the caller it resolved and a request it let through.
\<close>

type_synonym objectId = nat
type_synonym timestamp = nat

record ride_pricing = "real fare_parts" +
  finalAmount :: real

record user_rating =
  rating :: "real option"
  feedback :: "string option"
  date :: "timestamp option"

record tracking_entry =
  coordinates :: "real \<times> real"
  speed :: real
  heading :: real
  timestamp :: timestamp

record cancellation_record =
  cancelledBy :: string
  reason :: string
  cancellationFee :: real

record ride_doc =
  ride_id :: objectId
  user :: objectId
  driver :: "objectId option"
  rideType :: string
  status :: string
  route :: "real \<times> real"
  pricing :: ride_pricing
  userRating :: user_rating
  tracking :: "tracking_entry list"
  cancellation :: "cancellation_record option"
  actualPickupTime :: "timestamp option"

record user_doc =
  user_id :: objectId
  vehicleType :: string
  isAvailable :: bool
  driverRating :: real

record payment_doc =
  pay_user :: objectId
  pay_type :: string
  amount :: real
  pay_method :: string
  pay_status :: string
  description :: string

record store =
  rides :: "ride_doc list"
  users :: "user_doc list"
  payments :: "payment_doc list"

definition findById :: "objectId \<Rightarrow> ride_doc list \<Rightarrow> ride_doc option" where
  "findById i rs = find (\<lambda>r. ride_id r = i) rs"

text \<open>\<open>doc.save()\<close> on a loaded document writes it back under its \<open>_id\<close>.\<close>

definition save :: "ride_doc \<Rightarrow> ride_doc list \<Rightarrow> ride_doc list" where
  "save ride rs = map (\<lambda>x. if ride_id x = ride_id ride then ride else x) rs"

text \<open>\<open>save()\<close> on a new document inserts it under an identifier no document has.\<close>

definition fresh_id :: "ride_doc list \<Rightarrow> objectId" where
  "fresh_id rs = foldr (\<lambda>r m. max (Suc (ride_id r)) m) rs 0"

definition findUser :: "objectId \<Rightarrow> user_doc list \<Rightarrow> user_doc option" where
  "findUser i us = find (\<lambda>u. user_id u = i) us"

definition save_user :: "user_doc \<Rightarrow> user_doc list \<Rightarrow> user_doc list" where
  "save_user u us = map (\<lambda>x. if user_id x = user_id u then u else x) us"

text \<open>\<open>User.findByIdAndUpdate(id, {'driverInfo.isAvailable': b})\<close>\<close>

definition set_available :: "objectId \<Rightarrow> bool \<Rightarrow> user_doc list \<Rightarrow> user_doc list" where
  "set_available i b us = map (\<lambda>x. if user_id x = i then x\<lparr>isAvailable := b\<rparr> else x) us"

section \<open>Responses\<close>

text \<open>
  An error response is named after the specification's taxonomy where it has a name for it:
  400 "Ride is no longer available" is \<open>RideUnavailable\<close>, 400 "Vehicle type mismatch" is
  \<open>VehicleMismatch\<close>, 403 is \<open>Unauthorized\<close>, 400 "Cannot cancel completed or already
  cancelled ride" is \<open>AlreadyFinalized\<close>, 400 "Unable to calculate route" is
  \<open>RouteUnavailable\<close>; 404 is \<open>NotFound\<close> and the \<open>catch\<close> block's 500 is
  \<open>ServerError\<close>. \<open>InvalidTransition\<close> is what the state machine raises.
\<close>

datatype error =
    NotFound
  | Unauthorized
  | RideUnavailable
  | VehicleMismatch
  | DriverUnavailable
  | AlreadyFinalized
  | NotCompleted
  | AlreadyRated
  | InvalidStatus
  | NotTrackable
  | InvalidAmount
  | InsufficientEarnings
  | RouteUnavailable
  | InvalidTransition
  | ServerError

datatype reply =
    RideCreated objectId string real
  | RideAccepted objectId
  | RideCancelled real real
  | RideRated
  | StatusUpdated objectId string
  | LocationTracked
  | WithdrawalSubmitted real

type_synonym response = "error + reply"

section \<open>Ride methods of the model file\<close>

text \<open>
  Modelled from the spec: the Ride schema's default status (models/Ride.js is not among the
  sources). A ride is "created on request submission (status=\<open>pending\<close>)".
\<close>

definition default_status :: string where
  "default_status = ''pending''"

text \<open>
  Modelled from the spec: \<open>Ride.cancelRide(actor, reason, fee)\<close> (models/Ride.js is not
  among the sources). The ride moves to \<open>cancelled\<close> and keeps a "cancellation record
  (actor, reason, fee)".
\<close>

definition cancelRide :: "string \<Rightarrow> string \<Rightarrow> real \<Rightarrow> ride_doc \<Rightarrow> ride_doc" where
  "cancelRide actor why fee ride =
     ride\<lparr>status := ''cancelled'',
          cancellation := Some \<lparr>cancelledBy = actor, reason = why, cancellationFee = fee\<rparr>\<rparr>"

text \<open>
  Modelled from the spec: \<open>Ride.addTrackingLocation(coordinates, speed, heading)\<close>
  (models/Ride.js is not among the sources). The tracking log is an "ordered sequence of
  {coordinates, speed, heading, timestamp}"; the method appends one entry.
\<close>

definition addTrackingLocation ::
  "real \<times> real \<Rightarrow> real \<Rightarrow> real \<Rightarrow> timestamp \<Rightarrow> ride_doc \<Rightarrow> ride_doc" where
  "addTrackingLocation coords spd hdg now ride =
     ride\<lparr>tracking := tracking ride @
            [\<lparr>coordinates = coords, speed = spd, heading = hdg, timestamp = now\<rparr>]\<rparr>"

section \<open>Ride creation: \<open>POST /request\<close> (routes/ride.js)\<close>

text \<open>
  Modelled from the spec: the Ride schema's typing of the fare breakdown (models/Ride.js is
  not among the sources). A ride's "fare breakdown (base, distance, time, total, final)" is
  made of numbers, and a document whose breakdown holds anything but finite numbers is taken
  not to pass \<open>save()\<close>. The final amount is \<open>fare.totalFare\<close>.
\<close>

definition number_of :: "jsnum \<Rightarrow> real option" where
  "number_of v = (case v of Num x \<Rightarrow> Some x | _ \<Rightarrow> None)"

definition pricing_of :: "fare \<Rightarrow> ride_pricing option" where
  "pricing_of fare =
     (case (number_of (baseFare fare), number_of (distanceFare fare),
            number_of (timeFare fare), number_of (totalFare fare)) of
        (Some b, Some d, Some t, Some tot) \<Rightarrow>
          Some \<lparr>baseFare = b, distanceFare = d, timeFare = t, totalFare = tot,
                finalAmount = tot\<rparr>
      | _ \<Rightarrow> None)"

text \<open>
  \<open>distanceResult\<close> is what the route provider answered: \<open>None\<close> when
  \<open>distanceResult.success\<close> is false, the distance and the duration otherwise. The fare is
  computed with the default surge multiplier 1. A \<open>save()\<close> that fails is answered by the
  \<open>catch\<close> block. After the document is saved the handler broadcasts
  \<open>new-ride-request\<close> and answers; neither writes the store.
\<close>

definition request_ride ::
  "objectId \<Rightarrow> string \<Rightarrow> (real \<times> real) option \<Rightarrow> store \<Rightarrow> response \<times> store" where
  "request_ride req_user ride_type distanceResult s =
     (case distanceResult of
        None \<Rightarrow> (Inl RouteUnavailable, s)
      | Some (distance, duration) \<Rightarrow>
          (case pricing_of (calculateFare distance duration ride_type 1) of
             None \<Rightarrow> (Inl ServerError, s)
           | Some fare_pricing \<Rightarrow>
               let ride = \<lparr>ride_id = fresh_id (rides s),
                           user = req_user,
                           driver = None,
                           rideType = ride_type,
                           status = default_status,
                           route = (distance, duration),
                           pricing = fare_pricing,
                           userRating = \<lparr>rating = None, feedback = None, date = None\<rparr>,
                           tracking = [],
                           cancellation = None,
                           actualPickupTime = None\<rparr>
               in (Inr (RideCreated (ride_id ride) (status ride) (finalAmount (pricing ride))),
                   s\<lparr>rides := rides s @ [ride]\<rparr>)))"

section \<open>Acceptance: \<open>POST /accept-ride/:rideId\<close> (driver routes)\<close>

text \<open>
  \<open>req_user\<close> is the driver document the authentication middleware attached to the
  request. The handler awaits three store operations in turn: \<open>Ride.findById\<close>, after which
  the guards run on the loaded document and the document is modified in memory
  (\<open>accept_load\<close>: the error answered, or the document about to be saved);
  \<open>ride.save()\<close>; and \<open>User.findByIdAndUpdate\<close>, which marks the driver unavailable and
  after which the handler answers. Each store operation is atomic; between two of them
  other handlers may run.
\<close>

text \<open>
  \<open>ride.save()\<close> writes the paths the handler has set, \<open>driver\<close>, \<open>status\<close> and
  \<open>actualPickupTime\<close>, to the stored document with the \<open>_id\<close> of the loaded one; it
  asks nothing of the stored document's status.
\<close>

definition save_accepted :: "ride_doc \<Rightarrow> ride_doc list \<Rightarrow> ride_doc list" where
  "save_accepted ride rs =
     map (\<lambda>x. if ride_id x = ride_id ride
              then x\<lparr>driver := driver ride, status := status ride,
                     actualPickupTime := actualPickupTime ride\<rparr>
              else x) rs"

datatype accept_pc =
    AcceptStart
  | AcceptSave ride_doc
  | AcceptMark ride_doc
  | AcceptDone response

definition accept_load :: "user_doc \<Rightarrow> objectId \<Rightarrow> timestamp \<Rightarrow> store \<Rightarrow> error + ride_doc" where
  "accept_load req_user rideId now s =
     (case findById rideId (rides s) of
        None \<Rightarrow> Inl NotFound
      | Some ride \<Rightarrow>
          if status ride \<noteq> ''pending'' then Inl RideUnavailable
          else if rideType ride \<noteq> vehicleType req_user then Inl VehicleMismatch
          else if \<not> isAvailable req_user then Inl DriverUnavailable
          else Inr (ride\<lparr>driver := Some (user_id req_user),
                          status := ''accepted'',
                          actualPickupTime := Some now\<rparr>))"

fun accept_step ::
  "user_doc \<times> objectId \<times> timestamp \<Rightarrow> store \<times> accept_pc \<Rightarrow> store \<times> accept_pc" where
  "accept_step (req_user, rideId, now) (s, AcceptStart) =
     (case accept_load req_user rideId now s of
        Inl e \<Rightarrow> (s, AcceptDone (Inl e))
      | Inr ride \<Rightarrow> (s, AcceptSave ride))"
| "accept_step (req_user, rideId, now) (s, AcceptSave ride) =
     (s\<lparr>rides := save_accepted ride (rides s)\<rparr>, AcceptMark ride)"
| "accept_step (req_user, rideId, now) (s, AcceptMark ride) =
     (s\<lparr>users := set_available (user_id req_user) False (users s)\<rparr>,
      AcceptDone (Inr (RideAccepted (ride_id ride))))"
| "accept_step (req_user, rideId, now) (s, AcceptDone r) = (s, AcceptDone r)"

text \<open>One request handled with no other request in between.\<close>

definition accept_ride ::
  "user_doc \<Rightarrow> objectId \<Rightarrow> timestamp \<Rightarrow> store \<Rightarrow> response \<times> store" where
  "accept_ride req_user rideId now s =
     (case accept_load req_user rideId now s of
        Inl e \<Rightarrow> (Inl e, s)
      | Inr ride \<Rightarrow>
          (Inr (RideAccepted (ride_id ride)),
           s\<lparr>rides := save_accepted ride (rides s),
             users := set_available (user_id req_user) False (users s)\<rparr>))"

text \<open>
  Several requests in flight: \<open>reqs\<close> are the requests, \<open>pcs\<close> where each handler stands,
  and the schedule names, step by step, the handler whose next store operation runs.
\<close>

fun run_accepts ::
  "(user_doc \<times> objectId \<times> timestamp) list \<Rightarrow> nat list \<Rightarrow> store \<times> accept_pc list
     \<Rightarrow> store \<times> accept_pc list" where
  "run_accepts reqs [] cfg = cfg"
| "run_accepts reqs (k # schedule) (s, pcs) =
     (if k < length reqs \<and> k < length pcs
      then (case accept_step (reqs ! k) (s, pcs ! k) of
              (s', pc') \<Rightarrow> run_accepts reqs schedule (s', pcs[k := pc']))
      else run_accepts reqs schedule (s, pcs))"

section \<open>Cancellation: \<open>POST /:rideId/cancel\<close> (routes/ride.js)\<close>

definition cancel_ride :: "objectId \<Rightarrow> string \<Rightarrow> objectId \<Rightarrow> store \<Rightarrow> response \<times> store" where
  "cancel_ride req_user why rideId s =
     (case findById rideId (rides s) of
        None \<Rightarrow> (Inl NotFound, s)
      | Some ride \<Rightarrow>
          if user ride \<noteq> req_user then (Inl Unauthorized, s)
          else if status ride \<in> set [''completed'', ''cancelled''] then (Inl AlreadyFinalized, s)
          else
            let fee = (if status ride = ''accepted'' \<or> status ride = ''arrived''
                       then min (finalAmount (pricing ride) * (1 / 10)) 50
                       else 0);
                ride' = cancelRide ''user'' why fee ride
            in (Inr (RideCancelled fee (max 0 (finalAmount (pricing ride') - fee))),
                s\<lparr>rides := save ride' (rides s)\<rparr>))"

section \<open>Rating: \<open>POST /:rideId/rate\<close> (routes/ride.js)\<close>

text \<open>
  The aggregation matches the rides of the driver that are \<open>completed\<close> and whose
  \<open>rating.userRating.rating\<close> exists, and averages that field; it yields no group when no
  ride matches.
\<close>

definition rated_completed :: "objectId \<Rightarrow> ride_doc list \<Rightarrow> real list" where
  "rated_completed d rs =
     List.map_filter
       (\<lambda>r. if driver r = Some d \<and> status r = ''completed'' then rating (userRating r) else None) rs"

definition averageRating :: "objectId \<Rightarrow> ride_doc list \<Rightarrow> real option" where
  "averageRating d rs =
     (let vs = rated_completed d rs
      in if vs = [] then None else Some (sum_list vs / real (length vs)))"

definition update_driver_rating :: "objectId \<Rightarrow> store \<Rightarrow> store" where
  "update_driver_rating d s =
     (case findUser d (users s) of
        None \<Rightarrow> s
      | Some drv \<Rightarrow>
          (case averageRating d (rides s) of
             None \<Rightarrow> s
           | Some avg \<Rightarrow>
               s\<lparr>users := save_user (drv\<lparr>driverRating := Math_round (avg * 10) / 10\<rparr>) (users s)\<rparr>))"

text \<open>
  The aggregate as the specification words it: the arithmetic mean, rounded to one decimal
  place, a tie going up.
\<close>

definition mean :: "real list \<Rightarrow> real" where
  "mean xs = sum_list xs / real (length xs)"

definition round_1dp :: "real \<Rightarrow> real" where
  "round_1dp x = of_int \<lfloor>x * 10 + 1 / 2\<rfloor> / 10"

text \<open>\<open>if (ride.rating.userRating.rating)\<close>: a number is truthy unless it is 0.\<close>

definition truthy :: "real option \<Rightarrow> bool" where
  "truthy v = (case v of None \<Rightarrow> False | Some x \<Rightarrow> x \<noteq> 0)"

definition rate_ride ::
  "objectId \<Rightarrow> real \<Rightarrow> string \<Rightarrow> objectId \<Rightarrow> timestamp \<Rightarrow> store \<Rightarrow> response \<times> store" where
  "rate_ride req_user stars comment rideId now s =
     (case findById rideId (rides s) of
        None \<Rightarrow> (Inl NotFound, s)
      | Some ride \<Rightarrow>
          if user ride \<noteq> req_user then (Inl Unauthorized, s)
          else if status ride \<noteq> ''completed'' then (Inl NotCompleted, s)
          else if truthy (rating (userRating ride)) then (Inl AlreadyRated, s)
          else
            let ride' = ride\<lparr>userRating :=
                          \<lparr>rating = Some stars, feedback = Some comment, date = Some now\<rparr>\<rparr>;
                s' = s\<lparr>rides := save ride' (rides s)\<rparr>
            in (Inr RideRated,
                (case driver ride' of None \<Rightarrow> s' | Some d \<Rightarrow> update_driver_rating d s')))"

section \<open>Status update: \<open>PATCH /:rideId/status\<close> (routes/ride.js)\<close>

definition validStatuses :: "string list" where
  "validStatuses = [''accepted'', ''arrived'', ''started'', ''completed'']"

text \<open>
  \<open>Ride.updateStatus\<close> is a method of the model file, which is not among the sources. The
  handler takes it as a parameter: what the method does with a target status and the loaded
  ride, an error it throws or the ride as it saves it. The handler itself tests the caller
  and the target status, not the status the ride is in.
\<close>

definition update_ride_status ::
  "(string \<Rightarrow> ride_doc \<Rightarrow> error + ride_doc) \<Rightarrow> objectId \<Rightarrow> string \<Rightarrow> objectId \<Rightarrow> store
     \<Rightarrow> response \<times> store" where
  "update_ride_status updateStatus req_user new_status rideId s =
     (case findById rideId (rides s) of
        None \<Rightarrow> (Inl NotFound, s)
      | Some ride \<Rightarrow>
          if driver ride \<noteq> Some req_user then (Inl Unauthorized, s)
          else if new_status \<notin> set validStatuses then (Inl InvalidStatus, s)
          else
            (case updateStatus new_status ride of
               Inl e \<Rightarrow> (Inl ServerError, s)
             | Inr ride' \<Rightarrow>
                 (Inr (StatusUpdated (ride_id ride') (status ride')),
                  s\<lparr>rides := save ride' (rides s)\<rparr>)))"

section \<open>Tracking: \<open>POST /:rideId/track\<close> (routes/ride.js)\<close>

definition track_ride ::
  "objectId \<Rightarrow> real \<times> real \<Rightarrow> real \<Rightarrow> real \<Rightarrow> objectId \<Rightarrow> timestamp \<Rightarrow> store
     \<Rightarrow> response \<times> store" where
  "track_ride req_user coords spd hdg rideId now s =
     (case findById rideId (rides s) of
        None \<Rightarrow> (Inl NotFound, s)
      | Some ride \<Rightarrow>
          if driver ride \<noteq> Some req_user then (Inl Unauthorized, s)
          else if status ride \<notin> set [''started'', ''completed''] then (Inl NotTrackable, s)
          else (Inr LocationTracked,
                s\<lparr>rides := save (addTrackingLocation coords spd hdg now ride) (rides s)\<rparr>))"

section \<open>Withdrawal: \<open>POST /withdraw\<close> (driver routes)\<close>

text \<open>
  The aggregation sums \<open>pricing.finalAmount\<close> over the completed rides of the driver;
  \<open>totalEarnings[0]?.total || 0\<close> is 0 when no ride matches, as the empty sum is.
\<close>

definition totalEarnings :: "objectId \<Rightarrow> ride_doc list \<Rightarrow> real" where
  "totalEarnings d rs =
     sum_list (map (\<lambda>r. finalAmount (pricing r))
                 (filter (\<lambda>r. driver r = Some d \<and> status r = ''completed'') rs))"

definition withdrawal :: "objectId \<Rightarrow> real \<Rightarrow> payment_doc" where
  "withdrawal req_user amt =
     \<lparr>pay_user = req_user, pay_type = ''withdrawal'', amount = amt,
      pay_method = ''bank_transfer'', pay_status = ''pending'',
      description = ''Driver earnings withdrawal''\<rparr>"

definition withdraw :: "objectId \<Rightarrow> real \<Rightarrow> store \<Rightarrow> response \<times> store" where
  "withdraw req_user amt s =
     (if amt = 0 \<or> amt \<le> 0 then (Inl InvalidAmount, s)
      else
        let availableAmount = totalEarnings req_user (rides s)
        in if amt > availableAmount then (Inl InsufficientEarnings, s)
           else (Inr (WithdrawalSubmitted amt),
                 s\<lparr>payments := payments s @ [withdrawal req_user amt]\<rparr>))"

section \<open>Sequences of calls\<close>

datatype call =
    Request objectId string "(real \<times> real) option"
  | Accept user_doc objectId timestamp
  | Cancel objectId string objectId
  | Rate objectId real string objectId timestamp
  | UpdateStatus objectId string objectId
  | Track objectId "real \<times> real" real real objectId timestamp
  | Withdraw objectId real

fun api_call ::
  "(string \<Rightarrow> ride_doc \<Rightarrow> error + ride_doc) \<Rightarrow> call \<Rightarrow> store \<Rightarrow> response \<times> store" where
  "api_call upd (Request u c dr) s = request_ride u c dr s"
| "api_call upd (Accept u i now) s = accept_ride u i now s"
| "api_call upd (Cancel u why i) s = cancel_ride u why i s"
| "api_call upd (Rate u stars comment i now) s = rate_ride u stars comment i now s"
| "api_call upd (UpdateStatus u st i) s = update_ride_status upd u st i s"
| "api_call upd (Track u coords spd hdg i now) s = track_ride u coords spd hdg i now s"
| "api_call upd (Withdraw u amt) s = withdraw u amt s"

fun run_calls ::
  "(string \<Rightarrow> ride_doc \<Rightarrow> error + ride_doc) \<Rightarrow> call list \<Rightarrow> store \<Rightarrow> store" where
  "run_calls upd [] s = s"
| "run_calls upd (c # cs) s = run_calls upd cs (snd (api_call upd c s))"

section \<open>Sample data\<close>

text \<open>
  The ride of the specification's round trip: class Car, 6.2 km and 18 minutes, requested by
  user 1 and stored under identifier 7; two Car drivers, 2 and 3, and a Truck driver, 4.
\<close>

definition sample_ride :: ride_doc where
  "sample_ride =
     \<lparr>ride_id = 7, user = 1, driver = None, rideType = ''Car'', status = ''pending'',
      route = (62 / 10, 18),
      pricing = \<lparr>baseFare = 50, distanceFare = 93, timeFare = 36, totalFare = 179,
                 finalAmount = 179\<rparr>,
      userRating = \<lparr>rating = None, feedback = None, date = None\<rparr>,
      tracking = [], cancellation = None, actualPickupTime = None\<rparr>"

definition driver_a :: user_doc where
  "driver_a = \<lparr>user_id = 2, vehicleType = ''Car'', isAvailable = True, driverRating = 0\<rparr>"

definition driver_b :: user_doc where
  "driver_b = \<lparr>user_id = 3, vehicleType = ''Car'', isAvailable = True, driverRating = 0\<rparr>"

definition driver_c :: user_doc where
  "driver_c = \<lparr>user_id = 4, vehicleType = ''Truck'', isAvailable = True, driverRating = 0\<rparr>"

definition store_with :: "ride_doc list \<Rightarrow> store" where
  "store_with rs = \<lparr>rides = rs, users = [driver_a, driver_b, driver_c], payments = []\<rparr>"

text \<open>The sample ride in a given status, assigned to driver 2, with a given final amount.\<close>

definition assigned_ride :: "string \<Rightarrow> real \<Rightarrow> ride_doc" where
  "assigned_ride st amt =
     sample_ride\<lparr>driver := Some 2, status := st,
                 pricing := (pricing sample_ride)\<lparr>finalAmount := amt\<rparr>\<rparr>"

text \<open>A completed ride of driver 2, stored under \<open>i\<close>, that carries the rating \<open>v\<close>.\<close>

definition rated_ride :: "objectId \<Rightarrow> real \<Rightarrow> ride_doc" where
  "rated_ride i v =
     (assigned_ride ''completed'' 179)
       \<lparr>ride_id := i, userRating := \<lparr>rating = Some v, feedback = None, date = None\<rparr>\<rparr>"

text \<open>A completed and rated ride of another driver, and a rated ride that was cancelled.\<close>

definition other_drivers_ride :: ride_doc where
  "other_drivers_ride = (rated_ride 10 1)\<lparr>driver := Some 3\<rparr>"

definition cancelled_rated_ride :: ride_doc where
  "cancelled_rated_ride = (rated_ride 11 1)\<lparr>status := ''cancelled''\<rparr>"

text \<open>
  Driver 2's request for ride 7 has loaded the ride; the requester then cancels it; the
  request then goes through its \<open>save()\<close> and its answer.
\<close>

definition race_loaded :: "store \<times> accept_pc" where
  "race_loaded = accept_step (driver_a, 7, 1) (store_with [sample_ride], AcceptStart)"

definition race_cancelled :: "response \<times> store" where
  "race_cancelled = cancel_ride 1 ''late'' 7 (fst race_loaded)"

definition race_saved :: "store \<times> accept_pc" where
  "race_saved = accept_step (driver_a, 7, 1) (snd race_cancelled, snd race_loaded)"

definition race_answered :: "store \<times> accept_pc" where
  "race_answered = accept_step (driver_a, 7, 1) race_saved"

lemmas sample_defs =
  sample_ride_def driver_a_def driver_b_def driver_c_def store_with_def assigned_ride_def

section \<open>Facts about rounding\<close>

lemma pow2_pos: "0 < pow2 k"
  by (simp add: pow2_def)

lemma pow2_add: "pow2 (a + b) = pow2 a * pow2 b"
proof -
  have "pow2 k = 2 powr real_of_int k" for k
    by (simp add: pow2_def powr_realpow [symmetric] powr_minus divide_simps)
  then show ?thesis by (simp add: powr_add)
qed

lemma pow2_mono: "a \<le> b \<Longrightarrow> pow2 a \<le> pow2 b"
proof -
  have "pow2 k = 2 powr real_of_int k" for k
    by (simp add: pow2_def powr_realpow [symmetric] powr_minus divide_simps)
  then show "a \<le> b \<Longrightarrow> pow2 a \<le> pow2 b" by simp
qed

lemma pow2_nat: "0 \<le> k \<Longrightarrow> pow2 k = 2 ^ nat k"
  by (simp add: pow2_def)

lemma expo_eq:
  assumes lo: "pow2 e \<le> \<bar>x\<bar>" and hi: "\<bar>x\<bar> < pow2 (e + 1)"
  shows "expo x = e"
proof (cases "1 \<le> \<bar>x\<bar>")
  case True
  have e0: "0 \<le> e"
  proof (rule ccontr)
    assume "\<not> 0 \<le> e"
    then have "pow2 (e + 1) \<le> pow2 0" by (intro pow2_mono) simp
    then show False using hi True by (simp add: pow2_def)
  qed
  let ?n = "\<lfloor>\<bar>x\<bar>\<rfloor>"
  have "(2::real) ^ nat e \<le> \<bar>x\<bar>" using lo e0 by (simp add: pow2_nat)
  then have "real_of_int (2 ^ nat e) \<le> \<bar>x\<bar>" by simp
  then have n_lo: "2 ^ nat e \<le> ?n" by (simp only: le_floor_iff)
  have "\<bar>x\<bar> < 2 ^ nat (e + 1)" using hi e0 by (simp add: pow2_nat)
  then have "\<bar>x\<bar> < real_of_int (2 ^ nat (e + 1))" by simp
  then have n_hi: "?n < 2 ^ nat (e + 1)" by (simp only: floor_less_iff)
  have "bitlen ?n \<le> e + 1"
    using n_hi e0 by (simp add: bitlen_le_iff_power)
  moreover have "e + 1 \<le> bitlen ?n"
    using n_lo e0 by (simp add: bitlen_ge_iff_power nat_add_distrib)
  ultimately show ?thesis using True by (simp add: expo_def)
next
  case False
  then have x1: "\<bar>x\<bar> < 1" by simp
  have xpos: "0 < \<bar>x\<bar>" using lo pow2_pos [of e] by linarith
  have e0: "e < 0"
  proof (rule ccontr)
    assume "\<not> e < 0"
    then have "pow2 0 \<le> pow2 e" by (intro pow2_mono) simp
    then show False using lo x1 by (simp add: pow2_def)
  qed
  let ?m = "\<lceil>1 / \<bar>x\<bar>\<rceil>"
  have "1 / 2 ^ nat (- e) \<le> \<bar>x\<bar>" using lo e0 by (simp add: pow2_def)
  then have "1 / \<bar>x\<bar> \<le> 2 ^ nat (- e)"
    using xpos by (simp add: field_simps)
  then have "1 / \<bar>x\<bar> \<le> real_of_int (2 ^ nat (- e))" by simp
  then have m_hi: "?m \<le> 2 ^ nat (- e)" by (simp only: ceiling_le_iff)
  have "\<bar>x\<bar> < pow2 (e + 1)" by (rule hi)
  then have "\<bar>x\<bar> < 1 / 2 ^ nat (- e - 1)"
    using e0 by (cases "e = -1") (simp_all add: pow2_def)
  then have "2 ^ nat (- e - 1) < 1 / \<bar>x\<bar>"
    using xpos by (simp add: field_simps)
  then have "real_of_int (2 ^ nat (- e - 1)) < 1 / \<bar>x\<bar>" by simp
  then have m_lo: "2 ^ nat (- e - 1) < ?m" by (simp only: less_ceiling_iff)
  have "bitlen (?m - 1) \<le> - e"
    using m_hi e0 by (simp add: bitlen_le_iff_power)
  moreover have "- e \<le> bitlen (?m - 1)"
    using m_lo e0 by (simp add: bitlen_ge_iff_power nat_diff_distrib)
  ultimately show ?thesis using False by (simp add: expo_def)
qed


lemma round_half_even_int: "round_half_even (of_int n) = n"
  by (simp add: round_half_even_def)

lemma round_half_even_bounds:
  "real_of_int (round_half_even y) \<le> y + 1 / 2" "y - 1 / 2 \<le> real_of_int (round_half_even y)"
  unfolding round_half_even_def Let_def by (auto; linarith)+

lemma round_half_even_nonneg: "0 \<le> y \<Longrightarrow> 0 \<le> round_half_even y"
  unfolding round_half_even_def Let_def by (auto; linarith)

lemma round_half_even_le: "y \<le> of_int k \<Longrightarrow> round_half_even y \<le> k"
  unfolding round_half_even_def Let_def
  by (auto simp: floor_le_iff; linarith)

lemma round_half_even_ge: "of_int k \<le> y \<Longrightarrow> k \<le> round_half_even y"
  unfolding round_half_even_def Let_def
  by (auto simp: le_floor_iff; linarith)

text \<open>A number in the normal range is rounded at the unit of its binade.\<close>

lemma to_double_eq:
  assumes lo: "pow2 e \<le> \<bar>x\<bar>" and hi: "\<bar>x\<bar> < pow2 (e + 1)"
    and e: "- 1022 \<le> e" "e \<le> 1022"
  shows "to_double x = Num (of_int (round_half_even (x / pow2 (e - 52))) * pow2 (e - 52))"
proof -
  let ?u = "pow2 (e - 52)"
  let ?n = "round_half_even (x / ?u)"
  have x0: "x \<noteq> 0" using lo pow2_pos [of e] by auto
  have u: "ulp x = ?u" using expo_eq [OF lo hi] e by (simp add: ulp_def max_def)
  have upos: "0 < ?u" by (rule pow2_pos)
  have "pow2 (e + 1) = pow2 (53 + (e - 52))" by (simp add: algebra_simps)
  also have "\<dots> = pow2 53 * ?u" by (rule pow2_add)
  finally have p: "pow2 (e + 1) = 2 ^ 53 * ?u" by (simp add: pow2_nat)
  have "\<bar>x\<bar> < 2 ^ 53 * ?u" using hi by (simp only: p)
  then have "\<bar>x\<bar> / ?u \<le> 2 ^ 53" using upos by (simp add: field_simps)
  then have "x / ?u \<le> real_of_int (2 ^ 53)" "real_of_int (- (2 ^ 53)) \<le> x / ?u"
    using upos by (auto simp: abs_le_iff field_simps)
  then have "?n \<le> 2 ^ 53" "- (2 ^ 53) \<le> ?n"
    by (auto intro: round_half_even_le round_half_even_ge)
  then have "\<bar>?n\<bar> \<le> 2 ^ 53" by simp
  then have "real_of_int \<bar>?n\<bar> \<le> real_of_int (2 ^ 53)" by (simp only: of_int_le_iff)
  then have "\<bar>real_of_int ?n\<bar> \<le> 2 ^ 53" by simp
  then have "\<bar>real_of_int ?n * ?u\<bar> \<le> 2 ^ 53 * ?u"
    using upos by (simp add: abs_mult mult_right_mono)
  also have "\<dots> = pow2 (e + 1)" by (simp add: p)
  also have "\<dots> \<le> pow2 1023" using e by (intro pow2_mono) simp
  also have "\<dots> < 2 ^ 1024" by (simp add: pow2_def)
  finally have "\<bar>real_of_int ?n * ?u\<bar> < 2 ^ 1024" .
  then show ?thesis
    using x0 u by (simp add: to_double_def Let_def abs_less_iff)
qed

text \<open>Integers up to \<open>2^53\<close> are doubles.\<close>

lemma to_double_int:
  assumes "x \<in> \<int>" and "\<bar>x\<bar> \<le> 2 ^ 53"
  shows "to_double x = Num x"
proof (cases "x = 0")
  case True
  then show ?thesis by (simp add: to_double_def)
next
  case False
  from assms(1) obtain n where n: "x = of_int n" by (auto elim: Ints_cases)
  with False have n0: "n \<noteq> 0" by auto
  define e where "e = bitlen \<bar>n\<bar> - 1"
  have npos: "0 < \<bar>n\<bar>" using n0 by simp
  from bitlen_bounds [OF npos]
  have b: "2 ^ nat e \<le> \<bar>n\<bar>" "\<bar>n\<bar> < 2 ^ nat (e + 1)"
    by (simp_all add: e_def)
  have e0: "0 \<le> e" using npos by (simp add: e_def bitlen_alt_def)
  have "real_of_int (2 ^ nat e) \<le> real_of_int \<bar>n\<bar>" using b(1) by (simp only: of_int_le_iff)
  then have lo: "pow2 e \<le> \<bar>x\<bar>" using e0 by (simp add: n pow2_nat)
  have "real_of_int \<bar>n\<bar> < real_of_int (2 ^ nat (e + 1))" using b(2) by (simp only: of_int_less_iff)
  then have hi: "\<bar>x\<bar> < pow2 (e + 1)" using e0 by (simp add: n pow2_nat)
  have "\<bar>n\<bar> \<le> 2 ^ 53" using assms(2) unfolding n
    by (metis of_int_abs of_int_le_iff of_int_numeral of_int_power)
  then have "(2::int) ^ nat e \<le> 2 ^ 53" using b(1) by linarith
  then have "nat e \<le> 53" by (rule power_le_imp_le_exp [rotated]) simp
  then have e53: "e \<le> 53" by simp
  show ?thesis
  proof (cases "e \<le> 52")
    case True
    have "x / pow2 (e - 52) = of_int (n * 2 ^ nat (52 - e))"
      using True by (simp add: n pow2_def)
    then have "round_half_even (x / pow2 (e - 52)) = n * 2 ^ nat (52 - e)"
      by (simp only: round_half_even_int)
    then show ?thesis
      using to_double_eq [OF lo hi] e0 True by (simp add: n pow2_def)
  next
    case False
    with e53 have e: "e = 53" by simp
    have "\<bar>n\<bar> = 2 ^ 53" using b(1) \<open>\<bar>n\<bar> \<le> 2 ^ 53\<close> by (simp add: e)
    then have "even \<bar>n\<bar>" by simp
  then have "even n" by simp
    then obtain k where k: "n = 2 * k" by (auto elim: evenE)
    have "x / pow2 (e - 52) = of_int k" by (simp add: e n k pow2_def)
    then have "round_half_even (x / pow2 (e - 52)) = k"
      by (simp only: round_half_even_int)
    then show ?thesis
      using to_double_eq [OF lo hi] by (simp add: e n k pow2_def)
  qed
qed

lemma to_double_numeral: "numeral k \<le> (2::real) ^ 53 \<Longrightarrow> to_double (numeral k) = Num (numeral k)"
  by (rule to_double_int) simp_all

lemma to_double_0: "to_double 0 = Num 0"
  by (simp add: to_double_def)

lemma to_double_1: "to_double 1 = Num 1"
  by (rule to_double_int) simp_all

text \<open>Rounding keeps the sign.\<close>

lemma to_double_nonneg:
  assumes "0 \<le> x"
  shows "to_double x = PosInf \<or> (\<exists>r. to_double x = Num r \<and> 0 \<le> r)"
proof -
  have u: "0 < ulp x" by (simp add: ulp_def pow2_pos)
  then have "0 \<le> x / ulp x" using assms by simp
  then have "0 \<le> real_of_int (round_half_even (x / ulp x)) * ulp x"
    using round_half_even_nonneg [of "x / ulp x"] u by simp
  then show ?thesis
    by (auto simp: to_double_def Let_def)
qed

text \<open>Rounding a number of a known binade, for numbers given by their digits.\<close>

lemma to_double_at:
  assumes "pow2 e \<le> \<bar>x\<bar>" and "\<bar>x\<bar> < pow2 (e + 1)" and "- 1022 \<le> e" and "e \<le> 1022"
    and "round_half_even (x / pow2 (e - 52)) = n"
    and "r = of_int n * pow2 (e - 52)"
  shows "to_double x = Num r"
  using to_double_eq [OF assms(1-4)] assms(5,6) by simp

lemmas to_double_exact = to_double_numeral to_double_0 to_double_1

lemma not_negative_to_double: "0 \<le> x \<Longrightarrow> not_negative (to_double x)"
  using to_double_nonneg [of x] by (auto simp: not_negative_def)

lemma not_negative_jmul: "not_negative a \<Longrightarrow> 0 < y \<Longrightarrow> not_negative (jmul a (Num y))"
  by (cases a) (simp_all add: not_negative_def [of "Num _"] not_negative_def [of PosInf]
      not_negative_def [of NegInf] not_negative_def [of NaN] not_negative_def [of Undefined]
      not_negative_to_double)

lemma not_negative_jadd: "not_negative a \<Longrightarrow> not_negative b \<Longrightarrow> not_negative (jadd a b)"
  by (cases a; cases b) (simp_all add: not_negative_def [of "Num _"] not_negative_def [of PosInf]
      not_negative_def [of NegInf] not_negative_def [of NaN] not_negative_def [of Undefined]
      not_negative_to_double)

lemma not_negative_jround: "not_negative a \<Longrightarrow> not_negative (jround a)"
  by (cases a) (auto simp: not_negative_def Math_round_def)

lemma not_negative_jdiv100: "not_negative a \<Longrightarrow> not_negative (jdiv100 a)"
  by (cases a) (simp_all add: not_negative_def [of "Num _"] not_negative_def [of PosInf]
      not_negative_def [of NegInf] not_negative_def [of NaN] not_negative_def [of Undefined]
      not_negative_to_double)

text \<open>
  Rounding does not cross a power of two, so numbers well inside the range of the doubles
  stay finite under the operators.
\<close>

lemma expo_le:
  assumes "\<bar>x\<bar> \<le> 2 ^ k"
  shows "expo x \<le> int k"
proof (cases "1 \<le> \<bar>x\<bar>")
  case True
  have "\<lfloor>\<bar>x\<bar>\<rfloor> \<le> \<lfloor>(2::real) ^ k\<rfloor>" using assms by (rule floor_mono)
  also have "\<dots> = 2 ^ k" by (metis floor_of_int of_int_numeral of_int_power)
  also have "\<dots> < (2::int) ^ (k + 1)" by simp
  finally have "\<lfloor>\<bar>x\<bar>\<rfloor> < 2 ^ nat (int k + 1)" by (simp add: nat_add_distrib)
  then have "bitlen \<lfloor>\<bar>x\<bar>\<rfloor> \<le> int k + 1" by (simp add: bitlen_le_iff_power)
  then show ?thesis using True by (simp add: expo_def)
next
  case False
  have "0 \<le> bitlen (\<lceil>1 / \<bar>x\<bar>\<rceil> - 1)" by (rule bitlen_nonneg)
  then show ?thesis using False by (simp add: expo_def)
qed

lemma to_double_bounded:
  assumes "\<bar>x\<bar> \<le> 2 ^ k" and "k \<le> 1023"
  shows "\<exists>y. to_double x = Num y \<and> \<bar>y\<bar> \<le> 2 ^ k"
proof (cases "x = 0")
  case True
  then show ?thesis by (simp add: to_double_def)
next
  case False
  define e where "e = max (expo x) (- 1022) - 52"
  define j where "j = nat (int k - e)"
  have e: "e \<le> int k" using expo_le [OF assms(1)] by (simp add: e_def)
  have u: "ulp x = pow2 e" by (simp add: ulp_def e_def)
  have upos: "0 < pow2 e" by (rule pow2_pos)
  have "pow2 (int k) = pow2 (int j + e)" using e by (simp add: j_def)
  also have "\<dots> = pow2 (int j) * pow2 e" by (rule pow2_add)
  finally have p: "(2::real) ^ k = 2 ^ j * pow2 e" by (simp add: pow2_nat)
  have "\<bar>x\<bar> / pow2 e \<le> 2 ^ j" using assms(1) upos by (simp add: p field_simps)
  then have "x / pow2 e \<le> real_of_int (2 ^ j)" "real_of_int (- (2 ^ j)) \<le> x / pow2 e"
    using upos by (auto simp: abs_le_iff field_simps)
  then have "round_half_even (x / pow2 e) \<le> 2 ^ j" "- (2 ^ j) \<le> round_half_even (x / pow2 e)"
    by (auto intro: round_half_even_le round_half_even_ge)
  then have "\<bar>round_half_even (x / pow2 e)\<bar> \<le> 2 ^ j" by simp
  then have "real_of_int \<bar>round_half_even (x / pow2 e)\<bar> \<le> real_of_int (2 ^ j)"
    by (simp only: of_int_le_iff)
  then have "\<bar>real_of_int (round_half_even (x / pow2 e))\<bar> \<le> 2 ^ j" by simp
  then have "\<bar>real_of_int (round_half_even (x / pow2 e)) * pow2 e\<bar> \<le> 2 ^ j * pow2 e"
    using upos by (simp add: abs_mult mult_right_mono)
  then have b: "\<bar>real_of_int (round_half_even (x / pow2 e)) * pow2 e\<bar> \<le> 2 ^ k"
    by (simp only: p)
  have "(2::real) ^ k \<le> 2 ^ 1023" using assms(2) by (intro power_increasing) simp_all
  also have "\<dots> < (2::real) ^ 1024" by simp
  finally have "\<bar>real_of_int (round_half_even (x / pow2 e)) * pow2 e\<bar> < 2 ^ 1024"
    using b by linarith
  then show ?thesis
    using False b by (simp add: to_double_def Let_def u abs_less_iff)
qed

lemma below_Num: "below (Num r) k \<longleftrightarrow> \<bar>r\<bar> \<le> 2 ^ k"
  by (simp add: below_def)

lemma below_cases: "below a k \<Longrightarrow> \<exists>r. a = Num r \<and> \<bar>r\<bar> \<le> 2 ^ k"
  by (cases a) (simp_all add: below_def)

lemma below_mono:
  assumes "below a j" and "j \<le> k"
  shows "below a k"
proof -
  from below_cases [OF assms(1)] obtain x where x: "a = Num x" "\<bar>x\<bar> \<le> 2 ^ j" by blast
  have "(2::real) ^ j \<le> 2 ^ k" using assms(2) by (intro power_increasing) simp_all
  with x(2) have "\<bar>x\<bar> \<le> 2 ^ k" by (rule order_trans)
  then show ?thesis by (simp only: x(1) below_Num)
qed

lemma below_to_double: "\<bar>x\<bar> \<le> 2 ^ k \<Longrightarrow> k \<le> 1023 \<Longrightarrow> below (to_double x) k"
  using to_double_bounded [of x k] by (auto simp: below_Num)

lemma below_jmul:
  assumes "below a k" and "\<bar>y\<bar> \<le> 2 ^ m" and "k + m \<le> 1023"
  shows "below (jmul a (Num y)) (k + m)"
proof -
  from below_cases [OF assms(1)] obtain x where x: "a = Num x" "\<bar>x\<bar> \<le> 2 ^ k" by blast
  have "\<bar>x * y\<bar> \<le> 2 ^ k * 2 ^ m"
    unfolding abs_mult using x(2) assms(2) by (intro mult_mono) simp_all
  then have "\<bar>x * y\<bar> \<le> 2 ^ (k + m)" by (simp only: power_add)
  then have "below (to_double (x * y)) (k + m)" using assms(3) by (rule below_to_double)
  then show ?thesis by (simp add: x(1))
qed

lemma below_jadd:
  assumes "below a k" and "below b k" and "k < 1023"
  shows "below (jadd a b) (Suc k)"
proof -
  from below_cases [OF assms(1)] obtain x where x: "a = Num x" "\<bar>x\<bar> \<le> 2 ^ k" by blast
  from below_cases [OF assms(2)] obtain y where y: "b = Num y" "\<bar>y\<bar> \<le> 2 ^ k" by blast
  have "\<bar>x + y\<bar> \<le> 2 ^ k + 2 ^ k" using x(2) y(2) by linarith
  then have "\<bar>x + y\<bar> \<le> 2 ^ Suc k" by simp
  moreover have "Suc k \<le> 1023" using assms(3) by simp
  ultimately have "below (to_double (x + y)) (Suc k)" by (rule below_to_double)
  then show ?thesis by (simp add: x(1) y(1))
qed

lemma below_jround:
  assumes "below a k"
  shows "below (jround a) (Suc k)"
proof -
  from below_cases [OF assms(1)] obtain x where x: "a = Num x" "\<bar>x\<bar> \<le> 2 ^ k" by blast
  have "\<bar>Math_round x\<bar> \<le> \<bar>x\<bar> + 1" unfolding Math_round_def by linarith
  moreover have "(1::real) \<le> 2 ^ k" by simp
  ultimately have "\<bar>Math_round x\<bar> \<le> 2 ^ k + 2 ^ k" using x(2) by linarith
  then have "\<bar>Math_round x\<bar> \<le> 2 ^ Suc k" by simp
  then show ?thesis by (simp only: x(1) jround.simps below_Num)
qed

lemma below_jdiv100:
  assumes "below a k" and "k \<le> 1023"
  shows "below (jdiv100 a) k"
proof -
  from below_cases [OF assms(1)] obtain x where x: "a = Num x" "\<bar>x\<bar> \<le> 2 ^ k" by blast
  have "\<bar>x / 100\<bar> \<le> \<bar>x\<bar>" by simp
  then have "\<bar>x / 100\<bar> \<le> 2 ^ k" using x(2) by linarith
  then have "below (to_double (x / 100)) k" using assms(2) by (rule below_to_double)
  then show ?thesis by (simp add: x(1))
qed

lemma below_hundredths:
  assumes "below a k" and "k \<le> 1000"
  shows "\<exists>r. jdiv100 (jround (jmul a (Num 100))) = Num r"
proof -
  have "\<bar>100::real\<bar> \<le> 2 ^ 7" by simp
  with assms(1) have "below (jmul a (Num 100)) (k + 7)"
    by (rule below_jmul) (use assms(2) in simp)
  then have "below (jround (jmul a (Num 100))) (Suc (k + 7))"
    by (rule below_jround)
  then have "below (jdiv100 (jround (jmul a (Num 100)))) (Suc (k + 7))"
    by (rule below_jdiv100) (use assms(2) in simp)
  then show ?thesis using below_cases by blast
qed

lemma jmul_Undefined: "jmul a Undefined = NaN"
  by (cases a) simp_all

lemma jmul_NaN: "jmul NaN a = NaN"
  by (cases a) simp_all

lemma jadd_NaN: "jadd NaN a = NaN"
  by (cases a) simp_all

section \<open>Facts about the store\<close>

lemma findById_id: "findById i rs = Some r \<Longrightarrow> ride_id r = i"
  by (induction rs) (auto simp: findById_def split: if_splits)

lemma findById_append:
  "findById i (rs @ [r]) =
     (case findById i rs of Some x \<Rightarrow> Some x | None \<Rightarrow> if ride_id r = i then Some r else None)"
  by (induction rs) (auto simp: findById_def)

lemma findById_save:
  "findById i (save r rs) =
     (case findById i rs of None \<Rightarrow> None | Some x \<Rightarrow> if ride_id r = i then Some r else Some x)"
  by (induction rs) (auto simp: findById_def save_def)

lemma fresh_id_greater: "r \<in> set rs \<Longrightarrow> ride_id r < fresh_id rs"
  by (induction rs) (auto simp: fresh_id_def)

lemma findById_fresh: "findById (fresh_id rs) rs = None"
proof (cases "findById (fresh_id rs) rs")
  case None
  then show ?thesis .
next
  case (Some r)
  then have "r \<in> set rs" "ride_id r = fresh_id rs"
    by (auto simp: findById_def find_Some_iff)
  then show ?thesis
    using fresh_id_greater [of r rs] by simp
qed

lemma rides_update_driver_rating: "rides (update_driver_rating d s) = rides s"
  by (simp add: update_driver_rating_def split: option.splits)

lemma findById_mem: "findById i rs = Some r \<Longrightarrow> r \<in> set rs"
  by (auto simp: findById_def find_Some_iff)

lemma findUser_id: "findUser d us = Some u \<Longrightarrow> user_id u = d"
  by (induction us) (auto simp: findUser_def split: if_splits)

lemma findUser_save_user:
  "findUser d (save_user u us) =
     (case findUser d us of None \<Rightarrow> None | Some x \<Rightarrow> if user_id u = d then Some u else Some x)"
  by (induction us) (auto simp: findUser_def save_user_def)

lemma save_user_twice: "save_user u (save_user u us) = save_user u us"
  by (induction us) (auto simp: save_user_def)

lemma findById_save_accepted:
  "findById i (save_accepted r rs) =
     (case findById i rs of
        None \<Rightarrow> None
      | Some x \<Rightarrow>
          if ride_id r = i
          then Some (x\<lparr>driver := driver r, status := status r,
                       actualPickupTime := actualPickupTime r\<rparr>)
          else Some x)"
  by (induction rs) (auto simp: findById_def save_accepted_def)

section \<open>The fare engine\<close>

text \<open>The reference rounding does round to hundredths, to a nearest one, a tie going up.\<close>

lemma round_2dp_hundredths: "\<exists>k::int. round_2dp x = of_int k / 100"
  by (auto simp: round_2dp_def)

lemma round_2dp_nearest: "\<bar>round_2dp x - x\<bar> \<le> 1 / 200"
  unfolding round_2dp_def by linarith

lemma round_2dp_tie: "round_2dp (of_int k / 100 + 1 / 200) = of_int k / 100 + 1 / 100"
  unfolding round_2dp_def by (simp add: algebra_simps)

text \<open>The rates are positive numbers, or the three missing properties of an inherited value.\<close>

lemma rates_for_cases:
  "(\<exists>b k m. rates_for c = \<lparr>base = Num b, perKm = Num k, perMin = Num m\<rparr> \<and> 0 < b \<and> 0 < k \<and> 0 < m)
   \<or> rates_for c = \<lparr>base = Undefined, perKm = Undefined, perMin = Undefined\<rparr>"
  by (auto simp: rates_for_def baseFares_def intro: exI [of _ "3 / 2"])

text \<open>A fare computed from a route of non-negative length and duration is not negative.\<close>

lemma calculateFare_nonneg:
  assumes "0 \<le> d" and "0 \<le> t" and "totalFare (calculateFare d t c 1) = Num a"
  shows "0 \<le> a"
proof -
  from rates_for_cases [of c] show ?thesis
  proof
    assume "\<exists>b k m. rates_for c = \<lparr>base = Num b, perKm = Num k, perMin = Num m\<rparr>
              \<and> 0 < b \<and> 0 < k \<and> 0 < m"
    then obtain b k m where r: "rates_for c = \<lparr>base = Num b, perKm = Num k, perMin = Num m\<rparr>"
      and pos: "0 < b" "0 < k" "0 < m" by blast
    have "not_negative (Num b)" using pos by (simp add: not_negative_def)
    moreover have "not_negative (jmul (to_double d) (Num k))"
      using assms(1) pos by (intro not_negative_jmul not_negative_to_double)
    moreover have "not_negative (jmul (to_double t) (Num m))"
      using assms(2) pos by (intro not_negative_jmul not_negative_to_double)
    ultimately have
      "not_negative (jadd (jadd (Num b) (jmul (to_double d) (Num k))) (jmul (to_double t) (Num m)))"
      by (intro not_negative_jadd)
    then have "not_negative (totalFare (calculateFare d t c 1))"
      by (simp add: calculateFare_def Let_def r to_double_1)
         (intro not_negative_jdiv100 not_negative_jround not_negative_jmul, simp_all)
    then show ?thesis using assms(3) by (simp add: not_negative_def)
  next
    assume "rates_for c = \<lparr>base = Undefined, perKm = Undefined, perMin = Undefined\<rparr>"
    then have "totalFare (calculateFare d t c 1) = NaN"
      by (simp add: calculateFare_def Let_def jmul_Undefined jmul_NaN jadd_NaN)
    then show ?thesis using assms(3) by simp
  qed
qed

text \<open>
  For a vehicle class that is not a name inherited from \<open>Object.prototype\<close> and a route
  well inside the range of the doubles, every component of the fare is a finite number.
\<close>

lemma rates_for_own:
  assumes "c \<notin> set Object_prototype"
  shows "\<exists>b k m. rates_for c = \<lparr>base = Num b, perKm = Num k, perMin = Num m\<rparr>
           \<and> \<bar>b\<bar> \<le> 2 ^ 7 \<and> \<bar>k\<bar> \<le> 2 ^ 5 \<and> \<bar>m\<bar> \<le> 2 ^ 2"
  using assms by (auto simp: rates_for_def baseFares_def intro: exI [of _ "3 / 2"])

lemma calculateFare_finite:
  assumes "c \<notin> set Object_prototype" and "\<bar>d\<bar> \<le> 2 ^ 900" and "\<bar>t\<bar> \<le> 2 ^ 900"
  shows "\<exists>b df tf tot. calculateFare d t c 1 =
           \<lparr>baseFare = Num b, distanceFare = Num df, timeFare = Num tf, totalFare = Num tot,
            surgeMultiplier = Num 1\<rparr>"
proof -
  from rates_for_own [OF assms(1)] obtain b k m
    where r: "rates_for c = \<lparr>base = Num b, perKm = Num k, perMin = Num m\<rparr>"
      and bd: "\<bar>b\<bar> \<le> 2 ^ 7" "\<bar>k\<bar> \<le> 2 ^ 5" "\<bar>m\<bar> \<le> 2 ^ 2" by blast
  let ?df = "jmul (to_double d) (Num k)"
  let ?tf = "jmul (to_double t) (Num m)"
  let ?sum = "jadd (jadd (Num b) ?df) ?tf"
  let ?tot = "jmul ?sum (Num 1)"
  have d: "below (to_double d) 900" using assms(2) by (rule below_to_double) simp
  have t: "below (to_double t) 900" using assms(3) by (rule below_to_double) simp
  have "below ?df (900 + 5)" using d bd(2) by (rule below_jmul) simp
  then have df: "below ?df 905" by simp
  have "below ?tf (900 + 2)" using t bd(3) by (rule below_jmul) simp
  then have tf: "below ?tf 905" by (rule below_mono) simp
  have "below (Num b) 7" using bd(1) by (simp only: below_Num)
  then have b: "below (Num b) 905" by (rule below_mono) simp
  have "below (jadd (Num b) ?df) (Suc 905)" using b df by (rule below_jadd) simp
  moreover have "below ?tf (Suc 905)" using tf by (rule below_mono) simp
  ultimately have "below ?sum (Suc (Suc 905))" by (rule below_jadd) simp
  moreover have "\<bar>1::real\<bar> \<le> 2 ^ 0" by simp
  ultimately have "below ?tot (Suc (Suc 905) + 0)" by (rule below_jmul) simp
  then have tot: "below ?tot 907" by simp
  from below_hundredths [OF df] obtain x where x: "jdiv100 (jround (jmul ?df (Num 100))) = Num x"
    by auto
  from below_hundredths [OF tf] obtain y where y: "jdiv100 (jround (jmul ?tf (Num 100))) = Num y"
    by auto
  from below_hundredths [OF tot] obtain z where z: "jdiv100 (jround (jmul ?tot (Num 100))) = Num z"
    by auto
  show ?thesis
    using x y z by (simp add: calculateFare_def Let_def r to_double_1)
qed

text \<open>The fares of 6.239 km and of 6.2 km in 18 minutes by car, and of an inherited name.\<close>

lemma fare_6239:
  "calculateFare (6239 / 1000) 18 ''Car'' 1 =
     \<lparr>baseFare = Num 50,
      distanceFare = Num (3292905383793787 / 2 ^ 45),
      timeFare = Num 36,
      totalFare = Num (6318409539712451 / 2 ^ 45),
      surgeMultiplier = Num 1\<rparr>"
proof -
  have d: "to_double (6239 / 1000) = Num (7024489518791131 / 2 ^ 50)"
    by (rule to_double_at [of 2 _ 7024489518791131]) (simp_all add: pow2_def round_half_even_def)
  have df: "to_double (7024489518791131 / 2 ^ 50 * 15) = Num (6585458923866685 / 2 ^ 46)"
    by (rule to_double_at [of 6 _ 6585458923866685]) (simp_all add: pow2_def round_half_even_def)
  have a: "to_double (50 + 6585458923866685 / 2 ^ 46) = Num (2525974033187471 / 2 ^ 44)"
    by (rule to_double_at [of 7 _ 5051948066374942]) (simp_all add: pow2_def round_half_even_def)
  have b: "to_double (2525974033187471 / 2 ^ 44 + 36) = Num (3159292730786447 / 2 ^ 44)"
    by (rule to_double_at [of 7 _ 6318585461572894]) (simp_all add: pow2_def round_half_even_def)
  have tot: "to_double (3159292730786447 / 2 ^ 44 * 1) = Num (3159292730786447 / 2 ^ 44)"
    by (rule to_double_at [of 7 _ 6318585461572894]) (simp_all add: pow2_def round_half_even_def)
  have df100: "to_double (6585458923866685 / 2 ^ 46 * 100) = Num (18717 / 2)"
    by (rule to_double_at [of 13 _ 5144889784270848]) (simp_all add: pow2_def round_half_even_def)
  have dfq: "to_double (9359 / 100) = Num (3292905383793787 / 2 ^ 45)"
    by (rule to_double_at [of 6 _ 6585810767587574]) (simp_all add: pow2_def round_half_even_def)
  have tot100: "to_double (3159292730786447 / 2 ^ 44 * 100) = Num (4936394891853823 / 2 ^ 38)"
    by (rule to_double_at [of 14 _ 4936394891853823]) (simp_all add: pow2_def round_half_even_def)
  have totq: "to_double (17958 / 100) = Num (6318409539712451 / 2 ^ 45)"
    by (rule to_double_at [of 7 _ 6318409539712451]) (simp_all add: pow2_def round_half_even_def)
  show ?thesis
    using d df a b tot df100 dfq tot100 totq
    by (simp add: calculateFare_def rates_for_def baseFares_def Let_def Math_round_def
        to_double_exact)
qed

lemma fare_62:
  "calculateFare (62 / 10) 18 ''Car'' 1 =
     \<lparr>baseFare = Num 50, distanceFare = Num 93, timeFare = Num 36, totalFare = Num 179,
      surgeMultiplier = Num 1\<rparr>"
proof -
  have d: "to_double (62 / 10) = Num (6980579422424269 / 2 ^ 50)"
    by (rule to_double_at [of 2 _ 6980579422424269]) (simp_all add: pow2_def round_half_even_def)
  have df: "to_double (6980579422424269 / 2 ^ 50 * 15) = Num 93"
    by (rule to_double_at [of 6 _ 6544293208522752]) (simp_all add: pow2_def round_half_even_def)
  show ?thesis
    using d df
    by (simp add: calculateFare_def rates_for_def baseFares_def Let_def Math_round_def
        to_double_exact)
qed

lemma fare_inherited:
  "calculateFare d t ''constructor'' s =
     \<lparr>baseFare = Undefined, distanceFare = NaN, timeFare = NaN, totalFare = NaN,
      surgeMultiplier = to_double s\<rparr>"
  by (simp add: calculateFare_def rates_for_def baseFares_def Object_prototype_def Let_def
      jmul_Undefined jmul_NaN jadd_NaN)

text \<open>
  Claim C6. The fare function is to be the reference: rates by vehicle class with the
  default class for a class the table does not have, the total \<open>(base + distance *
  perKmRate + duration * perMinRate) * surge\<close>, every component rounded to two decimal
  places. The code computes in doubles and rounds with \<open>Math.round(x * 100) / 100\<close>: for
  6.239 km and 18 minutes by car it answers the distance fare 93.59 and the total 179.58,
  which is not the sum of its components. The reference answers 93.59 and 179.59 for
  6.239 km, and 93.58 and 179.58 for the double nearest to 6.239, which is what the code is
  given: it is missed either way. And the class \<open>constructor\<close>, which the table does not
  have, is not given the default rates: the fare is \<open>NaN\<close>, where the reference is 240.
\<close>

theorem calculateFare_misses_the_reference:
  "distanceFare (calculateFare (6239 / 1000) 18 ''Car'' 1) = to_double (9359 / 100)
   \<and> totalFare (calculateFare (6239 / 1000) 18 ''Car'' 1) = to_double (17958 / 100)
   \<and> distanceFare (fare_reference (6239 / 1000) 18 ''Car'' 1) = 9359 / 100
   \<and> totalFare (fare_reference (6239 / 1000) 18 ''Car'' 1) = 17959 / 100
   \<and> to_double (6239 / 1000) = Num (7024489518791131 / 2 ^ 50)
   \<and> distanceFare (fare_reference (7024489518791131 / 2 ^ 50) 18 ''Car'' 1) = 9358 / 100
   \<and> totalFare (fare_reference (7024489518791131 / 2 ^ 50) 18 ''Car'' 1) = 17958 / 100
   \<and> totalFare (calculateFare 10 20 ''constructor'' 1) = NaN
   \<and> totalFare (fare_reference 10 20 ''constructor'' 1) = 240"
proof -
  have d: "to_double (6239 / 1000) = Num (7024489518791131 / 2 ^ 50)"
    by (rule to_double_at [of 2 _ 7024489518791131]) (simp_all add: pow2_def round_half_even_def)
  have ref_d: "distanceFare (fare_reference (7024489518791131 / 2 ^ 50) 18 ''Car'' 1) = 9358 / 100"
    "totalFare (fare_reference (7024489518791131 / 2 ^ 50) 18 ''Car'' 1) = 17958 / 100"
    by (simp_all add: fare_reference_def rate_table_def default_class_def round_2dp_def)
  have dfq: "to_double (9359 / 100) = Num (3292905383793787 / 2 ^ 45)"
    by (rule to_double_at [of 6 _ 6585810767587574]) (simp_all add: pow2_def round_half_even_def)
  have totq: "to_double (17958 / 100) = Num (6318409539712451 / 2 ^ 45)"
    by (rule to_double_at [of 7 _ 6318409539712451]) (simp_all add: pow2_def round_half_even_def)
  have ref: "distanceFare (fare_reference (6239 / 1000) 18 ''Car'' 1) = 9359 / 100"
    "totalFare (fare_reference (6239 / 1000) 18 ''Car'' 1) = 17959 / 100"
    "totalFare (fare_reference 10 20 ''constructor'' 1) = 240"
    by (simp_all add: fare_reference_def rate_table_def default_class_def round_2dp_def)
  show ?thesis
    using dfq totq ref d ref_d by (simp add: fare_6239 fare_inherited)
qed

section \<open>Ride creation\<close>

lemma pricing_of_Some:
  assumes "pricing_of f = Some p"
  shows "totalFare f = Num (finalAmount p)"
  using assms
  by (cases "totalFare f")
     (auto simp: pricing_of_def number_of_def split: option.splits)

text \<open>Such a request is answered with success.\<close>

lemma request_ride_succeeds:
  assumes "c \<notin> set Object_prototype" and "\<bar>d\<bar> \<le> 2 ^ 900" and "\<bar>t\<bar> \<le> 2 ^ 900"
  shows "\<exists>a. fst (request_ride u c (Some (d, t)) s) =
           Inr (RideCreated (fresh_id (rides s)) ''pending'' a)"
proof -
  from calculateFare_finite [OF assms] obtain b df tf tot where
    "calculateFare d t c 1 =
       \<lparr>baseFare = Num b, distanceFare = Num df, timeFare = Num tf, totalFare = Num tot,
        surgeMultiplier = Num 1\<rparr>" by blast
  then show ?thesis
    by (simp add: request_ride_def pricing_of_def number_of_def default_status_def Let_def)
qed

text \<open>
  Claim C3, as amended. A successful ride-creation request whose route estimate is
  \<open>(d, t)\<close> and whose vehicle class is \<open>c\<close> persists a ride whose
  \<open>pricing.finalAmount\<close> is the total of \<open>calculateFare d t c 1\<close> and whose status
  is \<open>pending\<close>; that is the ride's status when the handler has saved it, broadcast the
  request to the drivers and answered.
\<close>

theorem request_ride_persisted:
  assumes "fst (request_ride u c (Some (d, t)) s) = Inr rep"
  shows "\<exists>a. totalFare (calculateFare d t c 1) = Num a
           \<and> rep = RideCreated (fresh_id (rides s)) ''pending'' a
           \<and> (\<exists>ride. rides (snd (request_ride u c (Some (d, t)) s)) = rides s @ [ride]
                 \<and> findById (fresh_id (rides s)) (rides (snd (request_ride u c (Some (d, t)) s))) =
                     Some ride
                 \<and> finalAmount (pricing ride) = a
                 \<and> status ride = ''pending'')"
proof (cases "pricing_of (calculateFare d t c 1)")
  case None
  then show ?thesis using assms by (simp add: request_ride_def)
next
  case (Some p)
  then show ?thesis
    using assms pricing_of_Some [OF Some]
    by (auto simp: request_ride_def default_status_def Let_def findById_append findById_fresh)
qed

theorem request_ride_persisted_witness:
  "fst (request_ride 1 ''Car'' (Some (62 / 10, 18)) (store_with [])) =
     Inr (RideCreated 0 ''pending'' 179)
   \<and> totalFare (calculateFare (62 / 10) 18 ''Car'' 1) = Num 179
   \<and> map (\<lambda>r. (finalAmount (pricing r), status r))
        (rides (snd (request_ride 1 ''Car'' (Some (62 / 10, 18)) (store_with [])))) =
       [(179, ''pending'')]"
proof -
  have ok: "fst (request_ride 1 ''Car'' (Some (62 / 10, 18)) (store_with [])) =
              Inr (RideCreated 0 ''pending'' 179)"
    using fare_62
    by (simp add: request_ride_def pricing_of_def number_of_def default_status_def
        Let_def fresh_id_def sample_defs)
  have "rides (store_with []) = []" by (simp add: sample_defs)
  then show ?thesis
    using ok fare_62 request_ride_persisted [OF ok] by auto
qed

text \<open>
  The round trip of the specification: after the whole handler has run, the persisted ride
  has the final amount 179 and is \<open>pending\<close>, not \<open>searching\<close>.
\<close>

theorem request_ride_not_searching:
  "rides (snd (request_ride 1 ''Car'' (Some (62 / 10, 18)) (store_with []))) =
     [sample_ride\<lparr>ride_id := 0\<rparr>]
   \<and> status (sample_ride\<lparr>ride_id := 0\<rparr>) \<noteq> ''searching''"
  using fare_62
  by (simp add: request_ride_def pricing_of_def number_of_def default_status_def
      Let_def fresh_id_def sample_defs)

section \<open>Acceptance\<close>

text \<open>
  Claim C2, as amended. An accept-ride call on a ride fails with \<open>RideUnavailable\<close>
  exactly when the ride's status is not \<open>pending\<close>, so a ride in \<open>searching\<close> cannot be
  claimed; on a \<open>pending\<close> ride it fails with \<open>VehicleMismatch\<close> when the driver's
  vehicle class is not the ride's requested class.
\<close>

theorem accept_ride_errors:
  assumes "findById i (rides s) = Some r"
  shows "(fst (accept_ride u i now s) = Inl RideUnavailable \<longleftrightarrow> status r \<noteq> ''pending'')
       \<and> (status r = ''pending'' \<and> rideType r \<noteq> vehicleType u
            \<longrightarrow> fst (accept_ride u i now s) = Inl VehicleMismatch)"
  using assms by (auto simp: accept_ride_def accept_load_def)

theorem accept_ride_errors_witness:
  "findById 7 (rides (store_with [sample_ride])) = Some sample_ride
   \<and> status sample_ride = ''pending''
   \<and> rideType sample_ride \<noteq> vehicleType driver_c
   \<and> fst (accept_ride driver_c 7 0 (store_with [sample_ride])) = Inl VehicleMismatch
   \<and> fst (accept_ride driver_a 7 0 (store_with [sample_ride])) \<noteq> Inl RideUnavailable"
proof -
  have h: "findById 7 (rides (store_with [sample_ride])) = Some sample_ride"
    by (simp add: findById_def sample_defs)
  have p: "status sample_ride = ''pending''" "rideType sample_ride \<noteq> vehicleType driver_c"
    by (simp_all add: sample_defs)
  show ?thesis
    using h p accept_ride_errors [OF h, of driver_c 0] accept_ride_errors [OF h, of driver_a 0]
    by simp
qed

text \<open>A ride in \<open>searching\<close>, offered to an available driver of its class, is refused.\<close>

theorem accept_searching_refused:
  "findById 7 (rides (store_with [sample_ride\<lparr>status := ''searching''\<rparr>])) =
     Some (sample_ride\<lparr>status := ''searching''\<rparr>)
   \<and> status (sample_ride\<lparr>status := ''searching''\<rparr>) = ''searching''
   \<and> rideType sample_ride = vehicleType driver_a
   \<and> isAvailable driver_a
   \<and> fst (accept_ride driver_a 7 0 (store_with [sample_ride\<lparr>status := ''searching''\<rparr>])) =
       Inl RideUnavailable"
  by (simp add: accept_ride_def accept_load_def findById_def sample_defs)

text \<open>
  Handled with no other request in between, a request goes through its three store
  operations and ends as \<open>accept_ride\<close> says; once a request has succeeded, every later
  one on the same ride is refused.
\<close>

lemma accept_ride_steps:
  "accept_step (u, i, now) (accept_step (u, i, now) (accept_step (u, i, now) (s, AcceptStart))) =
     (snd (accept_ride u i now s), AcceptDone (fst (accept_ride u i now s)))"
  by (cases "findById i (rides s)") (auto simp: accept_ride_def accept_load_def)

lemma accept_ride_then_refused:
  assumes "fst (accept_ride u i now s) = Inr x"
  shows "fst (accept_ride u' i now' (snd (accept_ride u i now s))) = Inl RideUnavailable"
proof (cases "findById i (rides s)")
  case None
  then show ?thesis using assms by (simp add: accept_ride_def accept_load_def)
next
  case (Some r)
  then show ?thesis
    using assms findById_id [OF Some]
    by (auto simp: accept_ride_def accept_load_def findById_save_accepted split: if_splits)
qed

lemma accept_one_after_the_other:
  "run_accepts [(driver_a, 7, 1), (driver_b, 7, 2)] [0, 0, 0, 1, 1, 1]
     (store_with [sample_ride], [AcceptStart, AcceptStart]) =
   (\<lparr>rides = [sample_ride\<lparr>driver := Some 2, status := ''accepted'', actualPickupTime := Some 1\<rparr>],
     users = [driver_a\<lparr>isAvailable := False\<rparr>, driver_b, driver_c],
     payments = []\<rparr>,
    [AcceptDone (Inr (RideAccepted 7)), AcceptDone (Inl RideUnavailable)])"
  by (simp add: accept_load_def findById_def save_accepted_def set_available_def sample_defs)

text \<open>
  Claim C1. Of the accept attempts that run concurrently on a \<open>pending\<close> ride exactly one
  is to succeed, the others being answered \<open>RideUnavailable\<close>, because acceptance is to be
  one atomic conditional update. The handler instead loads the ride, tests the loaded copy
  and saves it. When the requests of drivers 2 and 3 for ride 7 overlap, each running its
  \<open>findById\<close> before the other's \<open>save\<close>, both pass the guard, both save and both are
  answered with success; the ride keeps the driver who saved last, and both drivers are
  marked unavailable.
\<close>

theorem accept_race_two_winners:
  "run_accepts [(driver_a, 7, 1), (driver_b, 7, 2)] [0, 1, 0, 1, 0, 1]
     (store_with [sample_ride], [AcceptStart, AcceptStart]) =
   (\<lparr>rides = [sample_ride\<lparr>driver := Some 3, status := ''accepted'', actualPickupTime := Some 2\<rparr>],
     users = [driver_a\<lparr>isAvailable := False\<rparr>, driver_b\<lparr>isAvailable := False\<rparr>, driver_c],
     payments = []\<rparr>,
    [AcceptDone (Inr (RideAccepted 7)), AcceptDone (Inr (RideAccepted 7))])"
  by (simp add: accept_load_def findById_def save_accepted_def set_available_def sample_defs)

section \<open>Cancellation\<close>

text \<open>
  Claim C4. When the requester cancels a ride that is neither \<open>completed\<close> nor
  \<open>cancelled\<close>, the fee is the smaller of a tenth of the fare and 50 if the ride is
  \<open>accepted\<close> or \<open>arrived\<close>, and 0 in every other status; the refund reported is
  never negative, and it is the fare minus the fee, the fare being the ride's final amount,
  which is not negative (\<open>calculateFare_nonneg\<close>).
\<close>

theorem cancel_fee_refund:
  assumes "findById i (rides s) = Some r"
    and "user r = u"
    and "status r \<notin> {''completed'', ''cancelled''}"
  shows "\<exists>fee refund s'.
           cancel_ride u why i s = (Inr (RideCancelled fee refund), s')
         \<and> fee = (if status r \<in> {''accepted'', ''arrived''}
                  then min (finalAmount (pricing r) / 10) 50 else 0)
         \<and> 0 \<le> refund
         \<and> (0 \<le> finalAmount (pricing r) \<longrightarrow> refund = finalAmount (pricing r) - fee)"
  using assms by (auto simp: cancel_ride_def cancelRide_def Let_def min_def max_def)

theorem cancel_fee_refund_witness:
  "findById 7 (rides (store_with [assigned_ride ''accepted'' 500])) =
     Some (assigned_ride ''accepted'' 500)
   \<and> user (assigned_ride ''accepted'' 500) = 1
   \<and> status (assigned_ride ''accepted'' 500) \<notin> {''completed'', ''cancelled''}
   \<and> 0 \<le> finalAmount (pricing (assigned_ride ''accepted'' 500))
   \<and> fst (cancel_ride 1 ''plans changed'' 7 (store_with [assigned_ride ''accepted'' 500])) =
       Inr (RideCancelled 50 450)"
proof -
  have h: "findById 7 (rides (store_with [assigned_ride ''accepted'' 500])) =
             Some (assigned_ride ''accepted'' 500)"
    by (simp add: findById_def sample_defs)
  have u: "user (assigned_ride ''accepted'' 500) = 1"
    by (simp add: sample_defs)
  have st: "status (assigned_ride ''accepted'' 500) \<notin> {''completed'', ''cancelled''}"
    by (simp add: sample_defs)
  have amt: "0 \<le> finalAmount (pricing (assigned_ride ''accepted'' 500))"
    by (simp add: sample_defs)
  have "status (assigned_ride ''accepted'' 500) = ''accepted''"
    "finalAmount (pricing (assigned_ride ''accepted'' 500)) = 500"
    by (simp_all add: sample_defs)
  then show ?thesis
    using h u st amt cancel_fee_refund [OF h u st, of "''plans changed''"]
    by auto
qed

section \<open>Tracking\<close>

text \<open>
  Claim C8, as amended. Tracking-log entries are appended only while the ride's status is
  \<open>started\<close> or \<open>completed\<close>: an add-tracking-location call on a ride in any other
  status fails and leaves the store as it was, and a call by the assigned driver on a
  \<open>started\<close> or \<open>completed\<close> ride appends one entry.
\<close>

theorem track_only_started_or_completed:
  assumes "findById i (rides s) = Some r"
  shows "(status r \<notin> {''started'', ''completed''}
            \<longrightarrow> (\<exists>e. track_ride u coords spd hdg i now s = (Inl e, s)))
       \<and> (status r \<in> {''started'', ''completed''} \<and> driver r = Some u
            \<longrightarrow> fst (track_ride u coords spd hdg i now s) = Inr LocationTracked
              \<and> findById i (rides (snd (track_ride u coords spd hdg i now s))) =
                  Some (r\<lparr>tracking := tracking r @
                         [\<lparr>coordinates = coords, speed = spd, heading = hdg, timestamp = now\<rparr>]\<rparr>))"
  using assms findById_id [OF assms]
  by (auto simp: track_ride_def addTrackingLocation_def findById_save)

theorem track_only_started_or_completed_witness:
  "findById 7 (rides (store_with [assigned_ride ''arrived'' 179])) =
     Some (assigned_ride ''arrived'' 179)
   \<and> status (assigned_ride ''arrived'' 179) \<notin> {''started'', ''completed''}
   \<and> track_ride 2 (776 / 10, 129 / 10) 30 90 7 5 (store_with [assigned_ride ''arrived'' 179]) =
       (Inl NotTrackable, store_with [assigned_ride ''arrived'' 179])
   \<and> findById 7 (rides (store_with [assigned_ride ''started'' 179])) =
       Some (assigned_ride ''started'' 179)
   \<and> status (assigned_ride ''started'' 179) \<in> {''started'', ''completed''}
   \<and> driver (assigned_ride ''started'' 179) = Some 2
   \<and> fst (track_ride 2 (776 / 10, 129 / 10) 30 90 7 5 (store_with [assigned_ride ''started'' 179])) =
       Inr LocationTracked"
proof -
  have h1: "findById 7 (rides (store_with [assigned_ride ''arrived'' 179])) =
              Some (assigned_ride ''arrived'' 179)"
    by (simp add: findById_def sample_defs)
  have h2: "findById 7 (rides (store_with [assigned_ride ''started'' 179])) =
              Some (assigned_ride ''started'' 179)"
    by (simp add: findById_def sample_defs)
  have p: "status (assigned_ride ''arrived'' 179) \<notin> {''started'', ''completed''}"
    "status (assigned_ride ''started'' 179) \<in> {''started'', ''completed''}"
    "driver (assigned_ride ''started'' 179) = Some 2"
    "driver (assigned_ride ''arrived'' 179) = Some 2"
    by (simp_all add: sample_defs)
  have "track_ride 2 (776 / 10, 129 / 10) 30 90 7 5 (store_with [assigned_ride ''arrived'' 179]) =
          (Inl NotTrackable, store_with [assigned_ride ''arrived'' 179])"
    using track_only_started_or_completed [OF h1, of 2 "(776 / 10, 129 / 10)" 30 90 5] h1 p
    by (auto simp: track_ride_def)
  then show ?thesis
    using h1 h2 p track_only_started_or_completed [OF h2, of 2 "(776 / 10, 129 / 10)" 30 90 5]
    by simp
qed

text \<open>
  A \<open>completed\<close> ride with an empty log: the assigned driver's call succeeds and the log
  has an entry afterwards.
\<close>

theorem track_completed_appends:
  "status (assigned_ride ''completed'' 179) \<noteq> ''started''
   \<and> tracking (assigned_ride ''completed'' 179) = []
   \<and> track_ride 2 (776 / 10, 129 / 10) 0 0 7 5 (store_with [assigned_ride ''completed'' 179]) =
       (Inr LocationTracked,
        store_with [(assigned_ride ''completed'' 179)
          \<lparr>tracking := [\<lparr>coordinates = (776 / 10, 129 / 10), speed = 0, heading = 0,
                         timestamp = 5\<rparr>]\<rparr>])"
  by (simp add: track_ride_def addTrackingLocation_def findById_def save_def sample_defs)

section \<open>Rating guards\<close>

text \<open>
  The guards of the handler: a rate call on a ride whose status is not \<open>completed\<close>
  fails, a rate call on a ride that carries a rating other than 0 fails, neither changes the
  store, and after a successful rate call with a rating other than 0 every further rate call
  on the ride fails.
\<close>

lemma rate_guards:
  assumes "findById i (rides s) = Some r"
  shows "(status r \<noteq> ''completed'' \<longrightarrow> (\<exists>e. rate_ride u v f i now s = (Inl e, s)))
       \<and> ((\<exists>x. rating (userRating r) = Some x \<and> x \<noteq> 0)
            \<longrightarrow> (\<exists>e. rate_ride u v f i now s = (Inl e, s)))
       \<and> (fst (rate_ride u v f i now s) = Inr RideRated \<and> v \<noteq> 0
            \<longrightarrow> (\<exists>e. rate_ride u' v' f' i now' (snd (rate_ride u v f i now s)) =
                        (Inl e, snd (rate_ride u v f i now s))))"
  using assms findById_id [OF assms]
  by (auto simp: rate_ride_def truthy_def Let_def findById_save rides_update_driver_rating
      split: option.splits)

lemma rate_guards_at_samples:
  "findById 7 (rides (store_with [assigned_ride ''started'' 179])) = Some (assigned_ride ''started'' 179)
   \<and> status (assigned_ride ''started'' 179) \<noteq> ''completed''
   \<and> rate_ride 1 5 ''smooth'' 7 6 (store_with [assigned_ride ''started'' 179]) =
       (Inl NotCompleted, store_with [assigned_ride ''started'' 179])
   \<and> findById 8 (rides (store_with [rated_ride 8 4])) = Some (rated_ride 8 4)
   \<and> rating (userRating (rated_ride 8 4)) = Some 4
   \<and> rate_ride 1 5 ''smooth'' 8 6 (store_with [rated_ride 8 4]) =
       (Inl AlreadyRated, store_with [rated_ride 8 4])
   \<and> findById 7 (rides (store_with [assigned_ride ''completed'' 179])) =
       Some (assigned_ride ''completed'' 179)
   \<and> fst (rate_ride 1 5 ''smooth'' 7 6 (store_with [assigned_ride ''completed'' 179])) = Inr RideRated
   \<and> fst (rate_ride 1 1 ''on second thought'' 7 8
        (snd (rate_ride 1 5 ''smooth'' 7 6 (store_with [assigned_ride ''completed'' 179])))) =
       Inl AlreadyRated"
proof -
  let ?s1 = "store_with [assigned_ride ''started'' 179]"
  let ?s2 = "store_with [rated_ride 8 4]"
  let ?s3 = "store_with [assigned_ride ''completed'' 179]"
  have h1: "findById 7 (rides ?s1) = Some (assigned_ride ''started'' 179)"
    and h2: "findById 8 (rides ?s2) = Some (rated_ride 8 4)"
    and h3: "findById 7 (rides ?s3) = Some (assigned_ride ''completed'' 179)"
    by (simp_all add: findById_def sample_defs rated_ride_def)
  have p1: "status (assigned_ride ''started'' 179) \<noteq> ''completed''"
    and p2: "rating (userRating (rated_ride 8 4)) = Some 4"
    by (simp_all add: sample_defs rated_ride_def)
  have p3: "fst (rate_ride 1 5 ''smooth'' 7 6 ?s3) = Inr RideRated"
    by (simp add: rate_ride_def truthy_def Let_def findById_def sample_defs rated_ride_def)
  have e1: "rate_ride 1 5 ''smooth'' 7 6 ?s1 = (Inl NotCompleted, ?s1)"
    using rate_guards [OF h1, of 1 5 "''smooth''" 6] p1 h1
    by (auto simp: rate_ride_def sample_defs rated_ride_def)
  have e2: "rate_ride 1 5 ''smooth'' 8 6 ?s2 = (Inl AlreadyRated, ?s2)"
    using rate_guards [OF h2, of 1 5 "''smooth''" 6] p2 h2
    by (auto simp: rate_ride_def truthy_def sample_defs rated_ride_def)
  have e3: "fst (rate_ride 1 1 ''on second thought'' 7 8 (snd (rate_ride 1 5 ''smooth'' 7 6 ?s3))) =
              Inl AlreadyRated"
    using rate_guards [OF h3, of 1 5 "''smooth''" 6 1 1 "''on second thought''" 8] p3
    by (simp add: rate_ride_def truthy_def Let_def findById_def findUser_def save_def save_user_def
        update_driver_rating_def averageRating_def rated_completed_def Math_round_def
        sample_defs rated_ride_def)
  show ?thesis
    using h1 h2 h3 p1 p2 p3 e1 e2 e3 by simp
qed

text \<open>
  Claim C9. The rating sub-record of a ride is to be populated at most once: every rate call
  on an already-rated ride is to fail. The handler takes the request's rating as it comes
  and tests the stored rating for truthiness, and 0 is not truthy: a completed ride that its
  requester rates 0 is rated, and the next rate call succeeds as well and overwrites the
  sub-record.
\<close>

theorem rated_zero_is_rated_again:
  "fst (rate_ride 1 0 ''poor'' 7 6 (store_with [assigned_ride ''completed'' 179])) = Inr RideRated
   \<and> map userRating
        (rides (snd (rate_ride 1 0 ''poor'' 7 6 (store_with [assigned_ride ''completed'' 179])))) =
       [\<lparr>rating = Some 0, feedback = Some ''poor'', date = Some 6\<rparr>]
   \<and> fst (rate_ride 1 5 ''fine'' 7 8
        (snd (rate_ride 1 0 ''poor'' 7 6 (store_with [assigned_ride ''completed'' 179])))) =
       Inr RideRated
   \<and> map userRating
        (rides (snd (rate_ride 1 5 ''fine'' 7 8
          (snd (rate_ride 1 0 ''poor'' 7 6 (store_with [assigned_ride ''completed'' 179])))))) =
       [\<lparr>rating = Some 5, feedback = Some ''fine'', date = Some 8\<rparr>]"
  by (simp add: rate_ride_def truthy_def Let_def findById_def findUser_def save_def save_user_def
      update_driver_rating_def averageRating_def rated_completed_def Math_round_def
      sample_defs)

section \<open>Withdrawal\<close>

lemma withdraw_rides: "rides (snd (withdraw d a s)) = rides s"
  by (simp add: withdraw_def Let_def)




section \<open>The rating aggregate\<close>

text \<open>What the aggregation matches: the driver's completed rides that carry a rating.\<close>

lemma rated_completed_eq:
  "rated_completed d rs =
     map (\<lambda>x. the (rating (userRating x)))
       (filter (\<lambda>x. driver x = Some d \<and> status x = ''completed'' \<and> rating (userRating x) \<noteq> None)
          rs)"
  by (induction rs) (auto simp: rated_completed_def map_filter_simps)

lemma rated_completed_nonempty:
  assumes "r \<in> set rs" "driver r = Some d" "status r = ''completed''" "rating (userRating r) = Some v"
  shows "rated_completed d rs \<noteq> []"
  using assms by (auto simp: rated_completed_def map_filter_def filter_empty_conv)

lemma update_driver_rating_idem:
  "update_driver_rating d (update_driver_rating d s) = update_driver_rating d s"
proof (cases "findUser d (users s)")
  case None
  then show ?thesis by (simp add: update_driver_rating_def)
next
  case (Some drv)
  note drv = Some
  show ?thesis
  proof (cases "averageRating d (rides s)")
    case None
    then show ?thesis using drv by (simp add: update_driver_rating_def)
  next
    case (Some avg)
    then show ?thesis
      using drv findUser_id [OF drv]
      by (simp add: update_driver_rating_def findUser_save_user save_user_twice)
  qed
qed

lemma update_driver_rating_value:
  assumes "findUser d (users s) = Some drv" "rated_completed d (rides s) \<noteq> []"
  shows "\<exists>drv'. findUser d (users (update_driver_rating d s)) = Some drv'
          \<and> driverRating drv' = round_1dp (mean (rated_completed d (rides s)))"
  using assms findUser_id [OF assms(1)]
  by (simp add: update_driver_rating_def averageRating_def Let_def findUser_save_user
      round_1dp_def mean_def Math_round_def)

text \<open>
  Claim C7. After a completed ride is rated, the rating on the driver's profile is the
  arithmetic mean of the ratings of all completed rides of that driver that carry a user
  rating, rounded to one decimal place; recomputing the aggregate on the resulting store
  changes nothing.
\<close>

theorem rate_updates_driver_average:
  assumes "findById i (rides s) = Some r"
    and "driver r = Some d"
    and "findUser d (users s) = Some drv"
    and "fst (rate_ride u v f i now s) = Inr RideRated"
  shows "\<exists>drv'. findUser d (users (snd (rate_ride u v f i now s))) = Some drv'
           \<and> driverRating drv' =
               round_1dp (mean (map (\<lambda>x. the (rating (userRating x)))
                 (filter (\<lambda>x. driver x = Some d \<and> status x = ''completed''
                              \<and> rating (userRating x) \<noteq> None)
                    (rides (snd (rate_ride u v f i now s))))))
           \<and> filter (\<lambda>x. driver x = Some d \<and> status x = ''completed''
                         \<and> rating (userRating x) \<noteq> None)
                 (rides (snd (rate_ride u v f i now s))) \<noteq> []
           \<and> update_driver_rating d (snd (rate_ride u v f i now s)) = snd (rate_ride u v f i now s)"
proof -
  define r' where "r' = r\<lparr>userRating := \<lparr>rating = Some v, feedback = Some f, date = Some now\<rparr>\<rparr>"
  define s1 where "s1 = s\<lparr>rides := save r' (rides s)\<rparr>"
  have ok: "user r = u" "status r = ''completed''" "\<not> truthy (rating (userRating r))"
    using assms(1,4) by (auto simp: rate_ride_def Let_def split: if_splits)
  have res: "snd (rate_ride u v f i now s) = update_driver_rating d s1"
    using assms(1,2) ok by (simp add: rate_ride_def Let_def r'_def s1_def)
  have "findById i (rides s1) = Some r'"
    using assms(1) findById_id [OF assms(1)] by (simp add: s1_def findById_save r'_def)
  then have "r' \<in> set (rides s1)"
    by (rule findById_mem)
  then have ne: "rated_completed d (rides s1) \<noteq> []"
    using assms(2) ok by (intro rated_completed_nonempty [of r' _ d v]) (simp_all add: r'_def)
  have u1: "findUser d (users s1) = Some drv"
    using assms(3) by (simp add: s1_def)
  have val: "\<exists>drv'. findUser d (users (update_driver_rating d s1)) = Some drv'
          \<and> driverRating drv' = round_1dp (mean (rated_completed d (rides s1)))"
    by (rule update_driver_rating_value [OF u1 ne])
  show ?thesis
    using val ne unfolding rated_completed_eq
    by (simp add: res rides_update_driver_rating update_driver_rating_idem)
qed

theorem rate_updates_driver_average_witness:
  "findById 7 (rides (store_with [assigned_ride ''completed'' 179, rated_ride 8 4,
       other_drivers_ride, cancelled_rated_ride, rated_ride 9 4])) =
     Some (assigned_ride ''completed'' 179)
   \<and> driver (assigned_ride ''completed'' 179) = Some 2
   \<and> findUser 2 (users (store_with [assigned_ride ''completed'' 179, rated_ride 8 4,
       other_drivers_ride, cancelled_rated_ride, rated_ride 9 4])) = Some driver_a
   \<and> fst (rate_ride 1 5 ''smooth'' 7 6 (store_with [assigned_ride ''completed'' 179,
       rated_ride 8 4, other_drivers_ride, cancelled_rated_ride, rated_ride 9 4])) = Inr RideRated
   \<and> map driverRating (users (snd (rate_ride 1 5 ''smooth'' 7 6
        (store_with [assigned_ride ''completed'' 179, rated_ride 8 4, other_drivers_ride,
           cancelled_rated_ride, rated_ride 9 4])))) = [43 / 10, 0, 0]"
proof -
  let ?s = "store_with [assigned_ride ''completed'' 179, rated_ride 8 4, other_drivers_ride,
              cancelled_rated_ride, rated_ride 9 4]"
  note defs = sample_defs rated_ride_def other_drivers_ride_def cancelled_rated_ride_def
  have h: "findById 7 (rides ?s) = Some (assigned_ride ''completed'' 179)"
    by (simp add: findById_def defs)
  have d: "driver (assigned_ride ''completed'' 179) = Some 2"
    by (simp add: defs)
  have u: "findUser 2 (users ?s) = Some driver_a"
    by (simp add: findUser_def defs)
  have ok: "fst (rate_ride 1 5 ''smooth'' 7 6 ?s) = Inr RideRated"
    by (simp add: rate_ride_def truthy_def Let_def findById_def defs)
  have "map driverRating (users (snd (rate_ride 1 5 ''smooth'' 7 6 ?s))) = [43 / 10, 0, 0]"
    by (simp add: rate_ride_def truthy_def Let_def findById_def findUser_def save_def save_user_def
        update_driver_rating_def averageRating_def rated_completed_def Math_round_def defs)
  then show ?thesis
    using h d u ok rate_updates_driver_average [OF h d u ok] by simp
qed

section \<open>Terminal states\<close>

text \<open>
  Handled one after another, the handlers keep the status of a ride that is \<open>completed\<close>
  or \<open>cancelled\<close>, the status update under the proviso that \<open>Ride.updateStatus\<close>
  refuses such a ride and returns the ride it was given: the handler has no guard of its own
  and passes the ride on.
\<close>

lemma request_keeps:
  assumes "findById i (rides s) = Some r"
  shows "findById i (rides (snd (request_ride u c dr s))) = Some r"
  using assms
  by (auto simp: request_ride_def Let_def findById_append split: option.splits)

lemma accept_keeps:
  assumes "findById i (rides s) = Some r" and "status r \<noteq> ''pending''"
  shows "findById i (rides (snd (accept_ride u j now s))) = Some r"
proof (cases "findById j (rides s)")
  case None
  then show ?thesis using assms by (simp add: accept_ride_def accept_load_def)
next
  case (Some x)
  show ?thesis
    using assms Some findById_id [OF Some]
    by (cases "j = i") (auto simp: accept_ride_def accept_load_def findById_save_accepted)
qed

lemma cancel_keeps:
  assumes "findById i (rides s) = Some r" and "status r \<in> {''completed'', ''cancelled''}"
  shows "findById i (rides (snd (cancel_ride u why j s))) = Some r"
proof (cases "findById j (rides s)")
  case None
  then show ?thesis using assms by (simp add: cancel_ride_def)
next
  case (Some x)
  show ?thesis
    using assms Some findById_id [OF Some]
    by (cases "j = i") (auto simp: cancel_ride_def cancelRide_def Let_def findById_save)
qed

lemma rate_keeps:
  assumes "findById i (rides s) = Some r"
  shows "\<exists>r'. findById i (rides (snd (rate_ride u v f j now s))) = Some r' \<and> status r' = status r"
proof (cases "findById j (rides s)")
  case None
  then show ?thesis using assms by (simp add: rate_ride_def)
next
  case (Some x)
  show ?thesis
    using assms Some findById_id [OF Some]
    by (cases "j = i")
      (auto simp: rate_ride_def Let_def findById_save rides_update_driver_rating
        split: option.splits)
qed

lemma update_keeps:
  assumes "findById i (rides s) = Some r" and "status r \<in> {''completed'', ''cancelled''}"
    and refuses: "\<And>st x. status x \<in> {''completed'', ''cancelled''} \<Longrightarrow> \<exists>e. upd st x = Inl e"
    and same_id: "\<And>st x x'. upd st x = Inr x' \<Longrightarrow> ride_id x' = ride_id x"
  shows "findById i (rides (snd (update_ride_status upd u st j s))) = Some r"
proof (cases "findById j (rides s)")
  case None
  then show ?thesis using assms(1) by (simp add: update_ride_status_def)
next
  case (Some x)
  show ?thesis
  proof (cases "j = i")
    case True
    then have "x = r" using assms(1) Some by simp
    then obtain e where "upd st x = Inl e" using refuses [of x st] assms(2) by blast
    then show ?thesis using assms(1) Some by (simp add: update_ride_status_def)
  next
    case False
    then show ?thesis
      using assms(1) Some findById_id [OF Some]
      by (auto simp: update_ride_status_def findById_save split: sum.splits dest: same_id)
  qed
qed

lemma track_keeps:
  assumes "findById i (rides s) = Some r"
  shows "\<exists>r'. findById i (rides (snd (track_ride u co sp hg j now s))) = Some r'
           \<and> status r' = status r"
proof (cases "findById j (rides s)")
  case None
  then show ?thesis using assms by (simp add: track_ride_def)
next
  case (Some x)
  show ?thesis
    using assms Some findById_id [OF Some]
    by (cases "j = i") (auto simp: track_ride_def addTrackingLocation_def findById_save)
qed

lemma api_call_keeps_terminal:
  assumes "findById i (rides s) = Some r" and "status r \<in> {''completed'', ''cancelled''}"
    and refuses: "\<And>st x. status x \<in> {''completed'', ''cancelled''} \<Longrightarrow> \<exists>e. upd st x = Inl e"
    and same_id: "\<And>st x x'. upd st x = Inr x' \<Longrightarrow> ride_id x' = ride_id x"
  shows "\<exists>r'. findById i (rides (snd (api_call upd c s))) = Some r' \<and> status r' = status r"
proof (cases c)
  case (Accept u j now)
  have "status r \<noteq> ''pending''" using assms(2) by auto
  then show ?thesis using Accept accept_keeps [OF assms(1)] by simp
next
  case (UpdateStatus u st j)
  then show ?thesis using update_keeps [OF assms(1,2) refuses same_id] by simp
qed (use assms(1,2) in \<open>simp_all add: request_keeps cancel_keeps rate_keeps track_keeps
      withdraw_rides\<close>)

lemma run_calls_keeps_terminal:
  assumes "findById i (rides s) = Some r" and "status r \<in> {''completed'', ''cancelled''}"
    and refuses: "\<And>st x. status x \<in> {''completed'', ''cancelled''} \<Longrightarrow> \<exists>e. upd st x = Inl e"
    and same_id: "\<And>st x x'. upd st x = Inr x' \<Longrightarrow> ride_id x' = ride_id x"
  shows "\<exists>r'. findById i (rides (run_calls upd cs s)) = Some r' \<and> status r' = status r"
  using assms(1,2)
proof (induction cs arbitrary: s r)
  case Nil
  then show ?case by simp
next
  case (Cons c cs)
  have "\<exists>r'. findById i (rides (snd (api_call upd c s))) = Some r' \<and> status r' = status r"
    using Cons.prems
  proof (rule api_call_keeps_terminal)
    show "\<exists>e. upd st x = Inl e" if "status x \<in> {''completed'', ''cancelled''}" for st x
      using that by (rule refuses)
    show "ride_id x' = ride_id x" if "upd st x = Inr x'" for st x x'
      using that by (rule same_id)
  qed
  then obtain r1 where r1: "findById i (rides (snd (api_call upd c s))) = Some r1"
      "status r1 = status r"
    by blast
  then have "status r1 \<in> {''completed'', ''cancelled''}"
    using Cons.prems(2) by simp
  from Cons.IH [OF r1(1) this] show ?case
    using r1(2) by simp
qed

lemma cancel_terminal_refused:
  assumes "findById i (rides s) = Some r" and "status r \<in> {''completed'', ''cancelled''}"
  shows "cancel_ride (user r) why i s = (Inl AlreadyFinalized, s)"
    and "\<exists>e. cancel_ride u why i s = (Inl e, s)"
  using assms by (auto simp: cancel_ride_def)

lemma update_ride_status_passes_on:
  assumes "findById i (rides s) = Some r" and "driver r = Some u" and "st \<in> set validStatuses"
    and "upd st r = Inr r'"
  shows "update_ride_status upd u st i s =
           (Inr (StatusUpdated (ride_id r') (status r')), s\<lparr>rides := save r' (rides s)\<rparr>)"
  using assms by (simp add: update_ride_status_def)

text \<open>
  Claim C5. A ride that is \<open>completed\<close> or \<open>cancelled\<close> is to stay so whatever is called.
  The acceptance handler saves what it decided on the ride it loaded: a request that has
  loaded ride 7 while it was \<open>pending\<close> saves \<open>accepted\<close> after the requester has
  cancelled the ride, and is answered with success; the ride that was \<open>cancelled\<close> is
  \<open>accepted\<close>, with the fee-free cancellation still on record.
\<close>

theorem cancelled_ride_accepted:
  "fst race_cancelled = Inr (RideCancelled 0 179)
   \<and> map status (rides (snd race_cancelled)) = [''cancelled'']
   \<and> map status (rides (fst race_saved)) = [''accepted'']
   \<and> map driver (rides (fst race_saved)) = [Some 2]
   \<and> map cancellation (rides (fst race_saved)) =
       [Some \<lparr>cancelledBy = ''user'', reason = ''late'', cancellationFee = 0\<rparr>]
   \<and> snd race_answered = AcceptDone (Inr (RideAccepted 7))"
  by (simp add: race_loaded_def race_cancelled_def race_saved_def race_answered_def
      accept_load_def cancel_ride_def cancelRide_def Let_def findById_def save_def
      save_accepted_def set_available_def sample_defs)

section \<open>The status \<open>searching\<close>\<close>

text \<open>
  No handler writes \<open>searching\<close>: a store without a ride in that status has none after any
  sequence of calls, as long as \<open>Ride.updateStatus\<close> sets no other status than the target
  it is given. Rides are created \<open>pending\<close>, and \<open>pending\<close> is the status the acceptance
  guard asks for.
\<close>

lemma status_save:
  assumes "st \<notin> status ` set rs" and "status r \<noteq> st"
  shows "st \<notin> status ` set (save r rs)"
  using assms by (auto simp: save_def)

lemma status_found:
  assumes "st \<notin> status ` set rs" and "findById i rs = Some r"
  shows "status r \<noteq> st"
  using assms findById_mem [OF assms(2)] by auto

lemma status_save_accepted:
  assumes "st \<notin> status ` set rs" and "status r \<noteq> st"
  shows "st \<notin> status ` set (save_accepted r rs)"
  using assms by (auto simp: save_accepted_def)

lemma api_call_never_searching:
  assumes "''searching'' \<notin> status ` set (rides s)"
    and target: "\<And>st x x'. upd st x = Inr x' \<Longrightarrow> status x' = st"
  shows "''searching'' \<notin> status ` set (rides (snd (api_call upd c s)))"
proof (cases c)
  case (Request u ty dr)
  then show ?thesis
    using assms(1)
    by (cases dr) (auto simp: request_ride_def default_status_def Let_def split: option.splits)
next
  case (Accept u i now)
  show ?thesis
  proof (cases "accept_load u i now s")
    case (Inl e)
    then show ?thesis using assms(1) Accept by (simp add: accept_ride_def)
  next
    case (Inr ride)
    then have "status ride \<noteq> ''searching''"
      by (auto simp: accept_load_def split: option.splits if_splits)
    then show ?thesis
      using assms(1) Accept Inr by (simp add: accept_ride_def status_save_accepted)
  qed
next
  case (Cancel u why i)
  show ?thesis
  proof (cases "findById i (rides s)")
    case None
    then show ?thesis using assms(1) Cancel by (simp add: cancel_ride_def)
  next
    case (Some r)
    then show ?thesis
      using assms(1) Cancel
      by (simp add: cancel_ride_def cancelRide_def Let_def status_save)
  qed
next
  case (Rate u v f i now)
  show ?thesis
  proof (cases "findById i (rides s)")
    case None
    then show ?thesis using assms(1) Rate by (simp add: rate_ride_def)
  next
    case (Some r)
    then show ?thesis
      using assms(1) Rate status_found [OF assms(1) Some]
      by (simp add: rate_ride_def Let_def status_save rides_update_driver_rating
          split: option.splits)
  qed
next
  case (UpdateStatus u st i)
  show ?thesis
  proof (cases "findById i (rides s)")
    case None
    then show ?thesis using assms(1) UpdateStatus by (simp add: update_ride_status_def)
  next
    case (Some r)
    show ?thesis
    proof (cases "upd st r")
      case (Inl e)
      then show ?thesis using assms(1) UpdateStatus Some by (simp add: update_ride_status_def)
    next
      case (Inr r')
      show ?thesis
      proof (cases "driver r = Some u \<and> st \<in> set validStatuses")
        case True
        then have "status r' \<noteq> ''searching''"
          using target [OF Inr] by (auto simp: validStatuses_def)
        from status_save [OF assms(1) this] show ?thesis
          using UpdateStatus Some Inr True by (simp add: update_ride_status_def)
      next
        case False
        then show ?thesis
          using assms(1) UpdateStatus Some by (auto simp: update_ride_status_def)
      qed
    qed
  qed
next
  case (Track u co sp hg i now)
  show ?thesis
  proof (cases "findById i (rides s)")
    case None
    then show ?thesis using assms(1) Track by (simp add: track_ride_def)
  next
    case (Some r)
    then show ?thesis
      using assms(1) Track status_found [OF assms(1) Some]
      by (simp add: track_ride_def addTrackingLocation_def status_save)
  qed
next
  case (Withdraw u a)
  then show ?thesis
    using assms(1) by (simp add: withdraw_rides)
qed

lemma run_calls_never_searching:
  assumes "''searching'' \<notin> status ` set (rides s)"
    and target: "\<And>st x x'. upd st x = Inr x' \<Longrightarrow> status x' = st"
  shows "''searching'' \<notin> status ` set (rides (run_calls upd cs s))"
  using assms(1)
  by (induction cs arbitrary: s) (simp_all add: api_call_never_searching [OF _ target])

end
